theory Spec2Isabelle
  imports Complex_Main
begin

section \<open>JavaScript numbers\<close>

text \<open>
  The services compute with JavaScript numbers. Finite values are modelled as exact
  rationals; the three non-finite values are kept, because \<open>calculateDetour\<close> starts
  its search at \<open>Infinity\<close> and divides by a route length that can be zero, and
  \<open>ensureFairPricing\<close> divides by a sum that can be zero. Signed zeros are not
  distinguished: every divisor below is a sum started at \<open>+0\<close>.
\<close>

datatype jsnum = Num rat | PInf | NInf | NaN

definition js_inf :: "rat \<Rightarrow> jsnum" where
  "js_inf s = (if 0 < s then PInf else if s < 0 then NInf else NaN)"

fun js_sign :: "jsnum \<Rightarrow> rat" where
  "js_sign (Num a) = sgn a"
| "js_sign PInf = 1"
| "js_sign NInf = - 1"
| "js_sign NaN = 0"

fun js_neg :: "jsnum \<Rightarrow> jsnum" where
  "js_neg (Num a) = Num (- a)"
| "js_neg PInf = NInf"
| "js_neg NInf = PInf"
| "js_neg NaN = NaN"

fun js_add :: "jsnum \<Rightarrow> jsnum \<Rightarrow> jsnum" where
  "js_add NaN y = NaN"
| "js_add x NaN = NaN"
| "js_add (Num a) (Num b) = Num (a + b)"
| "js_add (Num a) y = y"
| "js_add x (Num b) = x"
| "js_add PInf PInf = PInf"
| "js_add NInf NInf = NInf"
| "js_add PInf NInf = NaN"
| "js_add NInf PInf = NaN"

definition js_sub :: "jsnum \<Rightarrow> jsnum \<Rightarrow> jsnum" where
  "js_sub x y = js_add x (js_neg y)"

fun js_mul :: "jsnum \<Rightarrow> jsnum \<Rightarrow> jsnum" where
  "js_mul NaN y = NaN"
| "js_mul x NaN = NaN"
| "js_mul (Num a) (Num b) = Num (a * b)"
| "js_mul x y = js_inf (js_sign x * js_sign y)"

fun js_div :: "jsnum \<Rightarrow> jsnum \<Rightarrow> jsnum" where
  "js_div NaN y = NaN"
| "js_div x NaN = NaN"
| "js_div (Num a) (Num b) = (if b = 0 then js_inf (sgn a) else Num (a / b))"
| "js_div (Num a) y = Num 0"
| "js_div x (Num b) = js_inf (js_sign x * (if b < 0 then - 1 else 1))"
| "js_div x y = NaN"

text \<open>\<open>a < b\<close> of JavaScript: false whenever an operand is \<open>NaN\<close>.\<close>

fun js_lt :: "jsnum \<Rightarrow> jsnum \<Rightarrow> bool" where
  "js_lt NaN y = False"
| "js_lt x NaN = False"
| "js_lt (Num a) (Num b) = (a < b)"
| "js_lt NInf NInf = False"
| "js_lt NInf y = True"
| "js_lt x NInf = False"
| "js_lt PInf y = False"
| "js_lt x PInf = True"

definition js_gt :: "jsnum \<Rightarrow> jsnum \<Rightarrow> bool" where
  "js_gt x y = js_lt y x"

text \<open>\<open>Math.max\<close> of two arguments.\<close>

definition js_max :: "jsnum \<Rightarrow> jsnum \<Rightarrow> jsnum" where
  "js_max x y = (if x = NaN \<or> y = NaN then NaN else if js_lt x y then y else x)"

text \<open>\<open>Math.round\<close>: the nearest integer, halves towards \<open>+Infinity\<close>.\<close>

definition math_round :: "rat \<Rightarrow> rat" where
  "math_round x = of_int \<lfloor>x + 1 / 2\<rfloor>"

fun js_round :: "jsnum \<Rightarrow> jsnum" where
  "js_round (Num a) = Num (math_round a)"
| "js_round x = x"


section \<open>Configuration (src/config/config.js)\<close>

record config =
  MAX_POOL_SIZE :: int
  MAX_LUGGAGE_PER_CAB :: int
  MATCHING_RADIUS_KM :: rat
  BASE_RATE_PER_KM :: rat
  BASE_RATE_PER_MIN :: rat
  MINIMUM_FARE :: rat
  AIRPORT_FEE :: rat

text \<open>The values the module exports when no environment variable overrides them.\<close>

definition default_config :: config where
  "default_config =
     \<lparr> MAX_POOL_SIZE = 4, MAX_LUGGAGE_PER_CAB = 6, MATCHING_RADIUS_KM = 5,
       BASE_RATE_PER_KM = 2, BASE_RATE_PER_MIN = 1 / 2, MINIMUM_FARE = 5,
       AIRPORT_FEE = 3 \<rparr>"

section \<open>PricingEngine (services/pricingEngine.js)\<close>

definition calculateBasePrice :: "config \<Rightarrow> rat \<Rightarrow> rat \<Rightarrow> rat" where
  "calculateBasePrice cfg distanceKm durationMin =
     (let distancePrice = distanceKm * BASE_RATE_PER_KM cfg;
          timePrice = durationMin * BASE_RATE_PER_MIN cfg;
          basePrice = distancePrice + timePrice + AIRPORT_FEE cfg
      in max basePrice (MINIMUM_FARE cfg))"

definition calculateDemandMultiplier :: "rat \<Rightarrow> rat \<Rightarrow> rat" where
  "calculateDemandMultiplier activeRequests availableCabs =
     (let ratio = activeRequests / max availableCabs 1
      in if ratio < 1 / 2 then 1
         else if ratio < 1 then 12 / 10
         else if ratio < 15 / 10 then 15 / 10
         else if ratio < 2 then 2
         else 25 / 10)"

text \<open>\<open>getTimeMultiplier\<close> reads the hour of the clock, \<open>0..23\<close>.\<close>

definition getTimeMultiplier :: "nat \<Rightarrow> rat" where
  "getTimeMultiplier hour =
     (if 6 \<le> hour \<and> hour < 9 then 13 / 10
      else if 17 \<le> hour \<and> hour < 20 then 14 / 10
      else if 0 \<le> hour \<and> hour < 6 then 12 / 10
      else 1)"

definition calculatePoolingDiscount :: "rat \<Rightarrow> jsnum \<Rightarrow> jsnum" where
  "calculatePoolingDiscount passengersCount detourPercentage =
     (let baseDiscount = min ((passengersCount - 1) * (15 / 100)) (45 / 100);
          detourPenalty = js_mul detourPercentage (Num (3 / 10))
      in js_max (js_sub (Num baseDiscount) detourPenalty) (Num (10 / 100)))"

definition getDistanceDiscount :: "rat \<Rightarrow> rat" where
  "getDistanceDiscount distanceKm =
     (if distanceKm > 20 then 90 / 100
      else if distanceKm > 50 then 85 / 100
      else 1)"






section \<open>DistanceCalculator (utils/distanceCalculator.js)\<close>

text \<open>
  A point is its coordinate pair \<open>[lng, lat]\<close>. The great-circle distance comes from
  the library call \<open>geolib.getDistance\<close>, which returns whole metres; it is a
  parameter \<open>geo\<close> of everything below.
\<close>

type_synonym point = "rat \<times> rat"

type_synonym geodesy = "point \<Rightarrow> point \<Rightarrow> nat"

datatype stop_type = Pickup | Dropoff

record stop =
  stype :: stop_type
  location :: point
  address :: "string option"
  passengerId :: "nat option"
  sequence :: nat

definition calculateDistance :: "geodesy \<Rightarrow> point \<Rightarrow> point \<Rightarrow> rat" where
  "calculateDistance geo point1 point2 =
     (let distanceInMeters = geo point1 point2 in of_nat distanceInMeters / 1000)"

definition calculateRouteDistance :: "geodesy \<Rightarrow> stop list \<Rightarrow> rat" where
  "calculateRouteDistance geo stops =
     foldl (\<lambda>totalDistance i.
              totalDistance
                + calculateDistance geo (location (stops ! i)) (location (stops ! (i + 1))))
           0 [0..<length stops - 1]"

definition estimateDuration :: "rat \<Rightarrow> rat" where
  "estimateDuration distanceKm =
     (let avgSpeedKmh = 40; durationHours = distanceKm / avgSpeedKmh
      in of_int \<lceil>durationHours * 60\<rceil>)"

definition isWithinRadius :: "geodesy \<Rightarrow> point \<Rightarrow> point \<Rightarrow> rat \<Rightarrow> bool" where
  "isWithinRadius geo point1 point2 radiusKm = (calculateDistance geo point1 point2 \<le> radiusKm)"

text \<open>
  \<open>calculateDetour\<close> copies the array of the original route, not its stop objects:
  every candidate route shares the original stops, and the \<open>forEach\<close> that renumbers
  a candidate writes the \<open>sequence\<close> field of those shared objects. A candidate is
  therefore a list of references: \<open>Orig k\<close> is the \<open>k\<close>-th object of the original
  route, \<open>Fresh s\<close> an object created for this candidate alone.
\<close>

datatype stop_ref = Orig nat | Fresh stop

fun deref :: "stop list \<Rightarrow> stop_ref \<Rightarrow> stop" where
  "deref heap (Orig k) = heap ! k"
| "deref heap (Fresh s) = s"

text \<open>\<open>xs.splice(i, 0, x)\<close>: insert \<open>x\<close> before index \<open>i\<close>, at the end when \<open>i\<close> is past it.\<close>

definition splice0 :: "nat \<Rightarrow> 'a \<Rightarrow> 'a list \<Rightarrow> 'a list" where
  "splice0 i x xs = take i xs @ x # drop i xs"

text \<open>\<open>newRoute.forEach((stop, idx) => { stop.sequence = idx })\<close>, from index \<open>idx\<close> on.\<close>

fun set_sequences :: "stop_ref list \<Rightarrow> nat \<Rightarrow> stop list \<Rightarrow> stop_ref list \<times> stop list" where
  "set_sequences [] idx heap = ([], heap)"
| "set_sequences (Orig k # rs) idx heap =
     (let (rs', heap') = set_sequences rs (Suc idx) (heap[k := (heap ! k)\<lparr>sequence := idx\<rparr>])
      in (Orig k # rs', heap'))"
| "set_sequences (Fresh s # rs) idx heap =
     (let (rs', heap') = set_sequences rs (Suc idx) heap
      in (Fresh (s\<lparr>sequence := idx\<rparr>) # rs', heap'))"

record detour_result =
  detourPercentage :: jsnum
  bestRoute :: "stop list option"
  newDistance :: rat

record detour_state =
  originals :: "stop list"
  minDetour :: jsnum
  bestRouteRef :: "stop_ref list option"
  bestDistance :: rat

definition new_stop :: "stop_type \<Rightarrow> point \<Rightarrow> nat \<Rightarrow> stop" where
  "new_stop t loc i =
     \<lparr> stype = t, location = loc, address = None, passengerId = None, sequence = i \<rparr>"

text \<open>The body of the inner loop, for one pair of insertion positions.\<close>

definition detour_step ::
  "geodesy \<Rightarrow> point \<Rightarrow> point \<Rightarrow> rat \<Rightarrow> nat \<Rightarrow> nat \<Rightarrow> detour_state \<Rightarrow> detour_state" where
  "detour_step geo newPickup newDropoff originalDistance pickupPos dropoffPos st =
     (let copy = map Orig [0..<length (originals st)];
          withDropoff = splice0 dropoffPos (Fresh (new_stop Dropoff newDropoff dropoffPos)) copy;
          withPickup = splice0 pickupPos (Fresh (new_stop Pickup newPickup pickupPos)) withDropoff;
          (newRoute, heap) = set_sequences withPickup 0 (originals st);
          newDistance = calculateRouteDistance geo (map (deref heap) newRoute);
          detour = js_div (Num (newDistance - originalDistance)) (Num originalDistance)
      in if js_lt detour (minDetour st)
         then \<lparr> originals = heap, minDetour = detour, bestRouteRef = Some newRoute,
                bestDistance = newDistance \<rparr>
         else st\<lparr>originals := heap\<rparr>)"

definition calculateDetour :: "geodesy \<Rightarrow> stop list \<Rightarrow> point \<Rightarrow> point \<Rightarrow> detour_result" where
  "calculateDetour geo originalRoute newPickup newDropoff =
     (if length originalRoute = 0
      then \<lparr> detourPercentage = Num 0,
             bestRoute = Some [new_stop Pickup newPickup 0, new_stop Dropoff newDropoff 1],
             newDistance = calculateDistance geo newPickup newDropoff \<rparr>
      else
        let originalDistance = calculateRouteDistance geo originalRoute;
            st0 = \<lparr> originals = originalRoute, minDetour = PInf, bestRouteRef = None,
                    bestDistance = 0 \<rparr>;
            st = fold (\<lambda>pickupPos.
                         fold (detour_step geo newPickup newDropoff originalDistance pickupPos)
                              [pickupPos..<Suc (length originalRoute)])
                      [0..<Suc (length originalRoute)] st0
        in \<lparr> detourPercentage = minDetour st,
             bestRoute = map_option (map (deref (originals st))) (bestRouteRef st),
             newDistance = bestDistance st \<rparr>)"

section \<open>Documents (models/RidePool.js, models/RideRequest.js)\<close>

text \<open>
  Object ids are natural numbers, statuses the strings the schemas enumerate, dates the
  reading of the clock. Every \<open>Number\<close> field is a rational.
\<close>

record ride_request =
  rq_id :: nat
  rq_userId :: nat
  rq_pickupLocation :: point
  rq_pickupAddress :: string
  rq_dropoffLocation :: point
  rq_dropoffAddress :: string
  rq_passengers :: rat
  rq_luggage :: rat
  rq_detourTolerance :: rat
  rq_status :: string
  rq_matchedPoolId :: "nat option"

record passenger =
  userId :: nat
  requestId :: nat
  pickupLocation :: point
  pickupAddress :: string
  dropoffLocation :: point
  dropoffAddress :: string
  price :: jsnum
  passengerCount :: rat
  luggageCount :: rat
  passengerStatus :: string

record route_doc =
  stops :: "stop list"
  totalDistance :: rat
  totalDuration :: rat
  optimizedAt :: "nat option"

record vehicle_doc =
  vehicleType :: string
  capacity :: rat
  luggageCapacity :: rat

record occupancy_doc =
  seats :: rat
  luggage :: rat

record pricing_doc =
  basePrice :: rat
  surgeFactor :: rat
  totalPrice :: rat
  poolingDiscount :: rat

text \<open>\<open>docVersion\<close> is Mongoose's version key \<open>__v\<close>, which the pre-save hook increments.\<close>

record ride_pool =
  status :: string
  passengers :: "passenger list"
  route :: route_doc
  vehicle :: vehicle_doc
  currentOccupancy :: occupancy_doc
  pricing :: pricing_doc
  docVersion :: nat
  matchedAt :: "nat option"
  cancelledAt :: "nat option"
  cancelReason :: "string option"

definition canAccommodate :: "ride_pool \<Rightarrow> rat \<Rightarrow> rat \<Rightarrow> bool" where
  "canAccommodate pool ps lg =
     (seats (currentOccupancy pool) + ps \<le> capacity (vehicle pool)
      \<and> luggage (currentOccupancy pool) + lg \<le> luggageCapacity (vehicle pool))"

definition addPassenger :: "ride_pool \<Rightarrow> passenger \<Rightarrow> ride_pool" where
  "addPassenger pool passengerData =
     pool\<lparr> passengers := passengers pool @ [passengerData],
           currentOccupancy :=
             \<lparr> seats = seats (currentOccupancy pool) + passengerCount passengerData,
               luggage = luggage (currentOccupancy pool) + luggageCount passengerData \<rparr> \<rparr>"

text \<open>\<open>removePassenger\<close> returns its boolean together with the pool as it leaves it.\<close>

definition removePassenger :: "ride_pool \<Rightarrow> nat \<Rightarrow> bool \<times> ride_pool" where
  "removePassenger pool uid =
     (case find (\<lambda>p. userId p = uid) (passengers pool) of
        Some p \<Rightarrow>
          (True,
           pool\<lparr> currentOccupancy :=
                   \<lparr> seats = seats (currentOccupancy pool) - passengerCount p,
                     luggage = luggage (currentOccupancy pool) - luggageCount p \<rparr>,
                 passengers := filter (\<lambda>q. userId q \<noteq> uid) (passengers pool) \<rparr>)
      | None \<Rightarrow> (False, pool))"

section \<open>MatchingEngine (services/matchingEngine.js)\<close>

text \<open>
  What the engine takes from outside: the geodesy library, the configuration, the clock
  (\<open>env_now\<close>, and \<open>env_hour\<close> for \<open>getHours\<close>), the value \<open>uuidv4\<close> returns, the id
  the database gives a new pool, whether the database accepts a pool document on
  \<open>save\<close> (schema validation and version check), and the order in which a query
  returns the pools.
\<close>

record env =
  env_geo :: geodesy
  env_cfg :: config
  env_now :: nat
  env_hour :: nat
  env_uuid :: string
  env_newPoolId :: nat
  env_accepts :: "ride_pool \<Rightarrow> bool"
  env_scan :: "nat list"

text \<open>
  The state the engine works on: the two collections, and the Redis keys \<open>pool:<id>\<close>
  that hold an unexpired lock, with the number of \<open>SET\<close> commands sent so far.
\<close>

record world =
  pools :: "nat \<rightharpoonup> ride_pool"
  requests :: "nat \<rightharpoonup> ride_request"
  locks :: "nat \<rightharpoonup> string"
  setCalls :: nat

datatype error = Error string | TypeError string

text \<open>
  \<open>SET key value PX timeout NX\<close> stores the value only when the key is absent. The
  key is \<open>pool:<id>\<close>, identified here with the pool id; the message of the error
  ends with that key in the source.
\<close>

definition acquireLock :: "env \<Rightarrow> world \<Rightarrow> nat \<Rightarrow> (error + string) \<times> world" where
  "acquireLock e w key =
     (let lockValue = env_uuid e;
          w1 = w\<lparr>setCalls := setCalls w + 1\<rparr>
      in case locks w key of
           Some held \<Rightarrow> (Inl (Error ''Failed to acquire lock''), w1)
         | None \<Rightarrow> (Inr lockValue, w1\<lparr>locks := (locks w1)(key \<mapsto> lockValue)\<rparr>))"

definition releaseLock :: "world \<Rightarrow> nat \<Rightarrow> string \<Rightarrow> world" where
  "releaseLock w key lockValue =
     (if locks w key = Some lockValue then w\<lparr>locks := (locks w)(key := None)\<rparr> else w)"

text \<open>\<open>pool.save()\<close>; a document that is not new gets its version key incremented.\<close>

definition save :: "env \<Rightarrow> world \<Rightarrow> nat \<Rightarrow> bool \<Rightarrow> ride_pool \<Rightarrow> error + ride_pool \<times> world" where
  "save e w pid isNew pool =
     (if \<not> env_accepts e pool then Inl (Error ''save rejected'')
      else let pool' = (if isNew then pool else pool\<lparr>docVersion := docVersion pool + 1\<rparr>)
           in Inr (pool', w\<lparr>pools := (pools w)(pid \<mapsto> pool')\<rparr>))"

text \<open>\<open>RideRequest.findByIdAndUpdate\<close>: no document, no change.\<close>

definition findByIdAndUpdate :: "world \<Rightarrow> nat \<Rightarrow> (ride_request \<Rightarrow> ride_request) \<Rightarrow> world" where
  "findByIdAndUpdate w rid f =
     (case requests w rid of
        None \<Rightarrow> w
      | Some r \<Rightarrow> w\<lparr>requests := (requests w)(rid \<mapsto> f r)\<rparr>)"

definition calculatePassengerPrice ::
  "env \<Rightarrow> ride_request \<Rightarrow> ride_pool \<Rightarrow> jsnum \<Rightarrow> (rat \<times> rat) option \<Rightarrow> jsnum" where
  "calculatePassengerPrice e rideRequest pool detour demandData =
     (let directDistance =
            calculateDistance (env_geo e) (rq_pickupLocation rideRequest)
              (rq_dropoffLocation rideRequest);
          directDuration = estimateDuration directDistance;
          price0 = calculateBasePrice (env_cfg e) directDistance directDuration;
          price1 = (case demandData of
                      Some (activeRequests, availableCabs) \<Rightarrow>
                        price0 * calculateDemandMultiplier activeRequests availableCabs
                    | None \<Rightarrow>
                        price0 * (if surgeFactor (pricing pool) = 0 then 1
                                  else surgeFactor (pricing pool)));
          timeMultiplier = getTimeMultiplier (env_hour e);
          price2 = price1 * timeMultiplier;
          currentPassengers = length (passengers pool) + 1;
          discount = calculatePoolingDiscount (of_nat currentPassengers) detour;
          price3 = js_mul (Num price2) (js_sub (Num 1) discount);
          distanceDiscount = getDistanceDiscount directDistance;
          price4 = js_mul price3 (Num distanceDiscount)
      in js_div (js_round (js_mul price4 (Num 100))) (Num 100))"

text \<open>
  The best match is a spread copy of the pool with \<open>calculatedDetour\<close> added; the
  engine afterwards reads only its \<open>_id\<close> and \<open>calculatedDetour\<close>.
\<close>

record pool_match =
  pm_id :: nat
  calculatedDetour :: detour_result

definition findNearbyPools :: "env \<Rightarrow> world \<Rightarrow> point \<Rightarrow> rat \<Rightarrow> rat \<Rightarrow> (nat \<times> ride_pool) list" where
  "findNearbyPools e w pickup requiredSeats requiredLuggage =
     (let found =
            take 20
              (filter (\<lambda>(i, pool).
                        (status pool = ''forming'' \<or> status pool = ''matched'')
                        \<and> seats (currentOccupancy pool) + requiredSeats \<le> capacity (vehicle pool)
                        \<and> luggage (currentOccupancy pool) + requiredLuggage
                             \<le> luggageCapacity (vehicle pool))
                 (List.map_filter (\<lambda>i. map_option (Pair i) (pools w i)) (env_scan e)))
      in filter (\<lambda>(i, pool).
                  if length (stops (route pool)) = 0 then False
                  else list_ex (\<lambda>s. isWithinRadius (env_geo e) pickup (location s)
                                       (MATCHING_RADIUS_KM (env_cfg e)))
                         (stops (route pool)))
           found)"

definition findBestMatch :: "env \<Rightarrow> ride_request \<Rightarrow> (nat \<times> ride_pool) list \<Rightarrow> pool_match option" where
  "findBestMatch e rideRequest candidates =
     fst (fold (\<lambda>(i, pool) (bestPool, minCost).
                  let detourResult =
                        calculateDetour (env_geo e) (stops (route pool))
                          (rq_pickupLocation rideRequest) (rq_dropoffLocation rideRequest)
                  in if js_gt (detourPercentage detourResult) (Num (rq_detourTolerance rideRequest))
                     then (bestPool, minCost)
                     else
                       let cost =
                             js_add
                               (js_add (js_mul (detourPercentage detourResult) (Num 100))
                                       (Num (of_nat (length (stops (route pool))) * 10)))
                               (Num (seats (currentOccupancy pool) * 5))
                       in if js_lt cost minCost
                          then (Some \<lparr> pm_id = i, calculatedDetour = detourResult \<rparr>, cost)
                          else (bestPool, minCost))
               candidates (None, PInf))"

datatype add_result = Success jsnum jsnum | Failure string

definition addToExistingPool :: "env \<Rightarrow> world \<Rightarrow> pool_match \<Rightarrow> ride_request \<Rightarrow> add_result \<times> world" where
  "addToExistingPool e w poolData rideRequest =
     (case pools w (pm_id poolData) of
        None \<Rightarrow> (Failure ''Pool not found'', w)
      | Some pool \<Rightarrow>
          if \<not> canAccommodate pool (rq_passengers rideRequest) (rq_luggage rideRequest)
          then (Failure ''Pool is full'', w)
          else
            let detour = detourPercentage (calculatedDetour poolData);
                newPrice = calculatePassengerPrice e rideRequest pool detour None;
                passengerData =
                  \<lparr> userId = rq_userId rideRequest, requestId = rq_id rideRequest,
                    pickupLocation = rq_pickupLocation rideRequest,
                    pickupAddress = rq_pickupAddress rideRequest,
                    dropoffLocation = rq_dropoffLocation rideRequest,
                    dropoffAddress = rq_dropoffAddress rideRequest,
                    price = newPrice,
                    passengerCount = rq_passengers rideRequest,
                    luggageCount = rq_luggage rideRequest,
                    passengerStatus = ''waiting'' \<rparr>;
                pool1 = addPassenger pool passengerData
            in case bestRoute (calculatedDetour poolData) of
                 None \<Rightarrow> (Failure ''Cannot read properties of null'', w)
               | Some best \<Rightarrow>
                   let newStops =
                         map (\<lambda>(idx, s).
                                s\<lparr> passengerId :=
                                     Some (case passengerId s of
                                             Some u \<Rightarrow> u
                                           | None \<Rightarrow> rq_userId rideRequest),
                                   sequence := idx,
                                   address :=
                                     Some (if stype s = Pickup
                                           then rq_pickupAddress rideRequest
                                           else rq_dropoffAddress rideRequest) \<rparr>)
                             (enumerate 0 best);
                       dist = newDistance (calculatedDetour poolData);
                       pool2 = pool1\<lparr> route :=
                                 \<lparr> stops = newStops, totalDistance = dist,
                                   totalDuration = estimateDuration dist,
                                   optimizedAt = Some (env_now e) \<rparr> \<rparr>;
                       pool3 = (if length (passengers pool2) \<ge> 2 \<and> status pool2 = ''forming''
                                then pool2\<lparr> status := ''matched'',
                                            matchedAt := Some (env_now e) \<rparr>
                                else pool2)
                   in case save e w (pm_id poolData) False pool3 of
                        Inl err \<Rightarrow> (Failure ''save rejected'', w)
                      | Inr (saved, w1) \<Rightarrow>
                          (Success newPrice detour,
                           findByIdAndUpdate w1 (rq_id rideRequest)
                             (\<lambda>r. r\<lparr> rq_status := ''matched'',
                                      rq_matchedPoolId := Some (pm_id poolData) \<rparr>)))"

definition createNewPool :: "env \<Rightarrow> world \<Rightarrow> ride_request \<Rightarrow> (error + ride_pool) \<times> world" where
  "createNewPool e w rideRequest =
     (let directDistance =
            calculateDistance (env_geo e) (rq_pickupLocation rideRequest)
              (rq_dropoffLocation rideRequest);
          newBasePrice =
            calculateBasePrice (env_cfg e) directDistance (estimateDuration directDistance);
          pool =
            \<lparr> status = ''forming'',
              passengers =
                [\<lparr> userId = rq_userId rideRequest, requestId = rq_id rideRequest,
                   pickupLocation = rq_pickupLocation rideRequest,
                   pickupAddress = rq_pickupAddress rideRequest,
                   dropoffLocation = rq_dropoffLocation rideRequest,
                   dropoffAddress = rq_dropoffAddress rideRequest,
                   price = Num newBasePrice,
                   passengerCount = rq_passengers rideRequest,
                   luggageCount = rq_luggage rideRequest,
                   passengerStatus = ''waiting'' \<rparr>],
              route =
                \<lparr> stops =
                    [\<lparr> stype = Pickup, location = rq_pickupLocation rideRequest,
                       address = Some (rq_pickupAddress rideRequest),
                       passengerId = Some (rq_userId rideRequest), sequence = 0 \<rparr>,
                     \<lparr> stype = Dropoff, location = rq_dropoffLocation rideRequest,
                       address = Some (rq_dropoffAddress rideRequest),
                       passengerId = Some (rq_userId rideRequest), sequence = 1 \<rparr>],
                  totalDistance = directDistance,
                  totalDuration = estimateDuration directDistance,
                  optimizedAt = Some (env_now e) \<rparr>,
              vehicle =
                \<lparr> vehicleType = ''sedan'', capacity = of_int (MAX_POOL_SIZE (env_cfg e)),
                  luggageCapacity = of_int (MAX_LUGGAGE_PER_CAB (env_cfg e)) \<rparr>,
              currentOccupancy =
                \<lparr> seats = rq_passengers rideRequest, luggage = rq_luggage rideRequest \<rparr>,
              pricing =
                \<lparr> basePrice = newBasePrice, surgeFactor = 1, totalPrice = newBasePrice,
                  poolingDiscount = 0 \<rparr>,
              docVersion = 0, matchedAt = None, cancelledAt = None, cancelReason = None \<rparr>
      in case save e w (env_newPoolId e) True pool of
           Inl err \<Rightarrow> (Inl err, w)
         | Inr (saved, w1) \<Rightarrow>
             (Inr saved,
              findByIdAndUpdate w1 (rq_id rideRequest)
                (\<lambda>r. r\<lparr> rq_status := ''matched'',
                         rq_matchedPoolId := Some (env_newPoolId e) \<rparr>)))"

text \<open>The \<open>try\<close> block of \<open>cancelRide\<close>, entered with the lock held.\<close>

definition cancelRide_locked :: "env \<Rightarrow> world \<Rightarrow> nat \<Rightarrow> nat \<Rightarrow> (error + ride_pool) \<times> world" where
  "cancelRide_locked e w uid poolId =
     (case pools w poolId of
        None \<Rightarrow> (Inl (Error ''Pool not found''), w)
      | Some pool \<Rightarrow>
          let (removed, pool1) = removePassenger pool uid
          in if \<not> removed then (Inl (Error ''Passenger not found in pool''), w)
             else
               let emptied = (length (passengers pool1) = 0)
               in if \<not> emptied \<and> list_ex (\<lambda>s. passengerId s = None) (stops (route pool1))
                  then (Inl (TypeError ''Cannot read properties of undefined''), w)
                  else
                    let pool2 =
                          (if emptied
                           then pool1\<lparr> status := ''cancelled'',
                                       cancelledAt := Some (env_now e),
                                       cancelReason := Some ''All passengers cancelled'' \<rparr>
                           else
                             let newStops =
                                   filter (\<lambda>s. passengerId s \<noteq> Some uid) (stops (route pool1));
                                 dist = calculateRouteDistance (env_geo e) newStops
                             in pool1\<lparr> route :=
                                   \<lparr> stops = map (\<lambda>(idx, s). s\<lparr>sequence := idx\<rparr>)
                                               (enumerate 0 newStops),
                                     totalDistance = dist,
                                     totalDuration = estimateDuration dist,
                                     optimizedAt = Some (env_now e) \<rparr> \<rparr>)
                    in case save e w poolId False pool2 of
                         Inl err \<Rightarrow> (Inl err, w)
                       | Inr (saved, w1) \<Rightarrow>
                           (case find (\<lambda>p. userId p = uid) (passengers saved) of
                              Some p \<Rightarrow>
                                (Inr saved,
                                 findByIdAndUpdate w1 (requestId p)
                                   (\<lambda>r. r\<lparr>rq_status := ''cancelled''\<rparr>))
                            | None \<Rightarrow> (Inr saved, w1)))"

text \<open>
  \<open>cancelRide\<close>: the lock is acquired before the \<open>try\<close>, so a failed acquisition
  leaves the function at once; the \<open>finally\<close> releases the lock on both exits of the
  block.
\<close>

definition cancelRide :: "env \<Rightarrow> world \<Rightarrow> nat \<Rightarrow> nat \<Rightarrow> (error + ride_pool) \<times> world" where
  "cancelRide e w uid poolId =
     (case acquireLock e w poolId of
        (Inl err, w1) \<Rightarrow> (Inl err, w1)
      | (Inr lockValue, w1) \<Rightarrow>
          let (res, w2) = cancelRide_locked e w1 uid poolId
          in (res, releaseLock w2 poolId lockValue))"

record process_result =
  poolId :: nat
  isNewPool :: bool
  estimatedPrice :: jsnum
  detour :: jsnum

text \<open>Step 3 of \<open>processRideRequest\<close>: no pool took the request.\<close>

definition process_new :: "env \<Rightarrow> world \<Rightarrow> ride_request \<Rightarrow> (error + process_result) \<times> world" where
  "process_new e w rideRequest =
     (case createNewPool e w rideRequest of
        (Inl err, w1) \<Rightarrow> (Inl err, w1)
      | (Inr newPool, w1) \<Rightarrow>
          (Inr \<lparr> poolId = env_newPoolId e, isNewPool = True,
                 estimatedPrice = price (hd (passengers newPool)), detour = Num 0 \<rparr>, w1))"

definition processRideRequest :: "env \<Rightarrow> world \<Rightarrow> ride_request \<Rightarrow> (error + process_result) \<times> world" where
  "processRideRequest e w rideRequest =
     (let nearbyPools =
            findNearbyPools e w (rq_pickupLocation rideRequest) (rq_passengers rideRequest)
              (rq_luggage rideRequest)
      in if length nearbyPools > 0
         then
           (case findBestMatch e rideRequest nearbyPools of
              None \<Rightarrow> process_new e w rideRequest
            | Some matchedPool \<Rightarrow>
                (case acquireLock e w (pm_id matchedPool) of
                   (Inl err, w1) \<Rightarrow> (Inl err, w1)
                 | (Inr lockValue, w1) \<Rightarrow>
                     let (res, w2) = addToExistingPool e w1 matchedPool rideRequest;
                         w3 = releaseLock w2 (pm_id matchedPool) lockValue
                     in case res of
                          Success p d \<Rightarrow>
                            (Inr \<lparr> poolId = pm_id matchedPool, isNewPool = False,
                                   estimatedPrice = p, detour = d \<rparr>, w3)
                        | Failure msg \<Rightarrow> process_new e w3 rideRequest))
         else process_new e w rideRequest)"

text \<open>The capacity invariant of a pool document.\<close>

definition within_capacity :: "ride_pool \<Rightarrow> bool" where
  "within_capacity pool =
     (seats (currentOccupancy pool) \<le> capacity (vehicle pool)
      \<and> luggage (currentOccupancy pool) \<le> luggageCapacity (vehicle pool))"

section \<open>Notions used to state the properties\<close>

subsection \<open>Candidate routes of the detour search\<close>

text \<open>
  A stop without its sequence number: candidates are compared as sequences of stops, and
  the sequence numbers are rewritten by the caller.
\<close>

definition unsequenced :: "stop \<Rightarrow> stop" where
  "unsequenced s = s\<lparr>sequence := 0\<rparr>"

text \<open>
  The list \<open>xs\<close> with \<open>a\<close> inserted at position \<open>p\<close> and \<open>b\<close> at position \<open>d\<close> of
  the original list, \<open>p \<le> d\<close>: \<open>a\<close> comes before \<open>b\<close>, also when \<open>p = d\<close>.
\<close>

definition insertion :: "'a list \<Rightarrow> 'a \<Rightarrow> 'a \<Rightarrow> nat \<Rightarrow> nat \<Rightarrow> 'a list" where
  "insertion xs a b p d = take p xs @ a # drop p (take d xs) @ b # drop d xs"

definition candidate :: "stop list \<Rightarrow> point \<Rightarrow> point \<Rightarrow> nat \<Rightarrow> nat \<Rightarrow> stop list" where
  "candidate stops_in newPickup newDropoff p d =
     insertion stops_in (new_stop Pickup newPickup 0) (new_stop Dropoff newDropoff 0) p d"

definition candidate_distance :: "geodesy \<Rightarrow> stop list \<Rightarrow> point \<Rightarrow> point \<Rightarrow> nat \<Rightarrow> nat \<Rightarrow> rat" where
  "candidate_distance geo stops_in newPickup newDropoff p d =
     calculateRouteDistance geo (candidate stops_in newPickup newDropoff p d)"

text \<open>Lower pickup index first, then lower dropoff index.\<close>

definition lex_before :: "nat \<times> nat \<Rightarrow> nat \<times> nat \<Rightarrow> bool" where
  "lex_before q q' = (fst q < fst q' \<or> (fst q = fst q' \<and> snd q < snd q'))"

text \<open>The pairs of positions in the order in which the two loops visit them.\<close>

definition positions :: "nat \<Rightarrow> (nat \<times> nat) list" where
  "positions n = concat (map (\<lambda>p. map (Pair p) [p..<Suc n]) [0..<Suc n])"

fun valid_ref :: "nat \<Rightarrow> stop_ref \<Rightarrow> bool" where
  "valid_ref n (Orig k) = (k < n)"
| "valid_ref n (Fresh s) = True"

text \<open>
  The invariant of the search after the pairs \<open>tried\<close>: the shared stops differ from
  the input only in their sequence numbers, and the best route so far is the first
  pair of least distance among those tried.
\<close>

definition detour_inv ::
  "geodesy \<Rightarrow> stop list \<Rightarrow> point \<Rightarrow> point \<Rightarrow> rat \<Rightarrow> (nat \<times> nat) list \<Rightarrow> detour_state \<Rightarrow> bool" where
  "detour_inv geo stops_in P D orig tried st =
     (map unsequenced (originals st) = map unsequenced stops_in
      \<and> (case bestRouteRef st of
            None \<Rightarrow> tried = [] \<and> minDetour st = PInf \<and> bestDistance st = 0
          | Some R \<Rightarrow>
              (\<exists>pre p d post.
                  tried = pre @ (p, d) # post \<and> p \<le> d \<and> d \<le> length stops_in
                  \<and> (\<forall>r\<in>set R. valid_ref (length stops_in) r)
                  \<and> map (\<lambda>r. unsequenced (deref (originals st) r)) R
                      = map unsequenced (candidate stops_in P D p d)
                  \<and> bestDistance st = candidate_distance geo stops_in P D p d
                  \<and> minDetour st = Num ((candidate_distance geo stops_in P D p d - orig) / orig)
                  \<and> (\<forall>q\<in>set pre. candidate_distance geo stops_in P D p d
                                     < candidate_distance geo stops_in P D (fst q) (snd q))
                  \<and> (\<forall>q\<in>set post. candidate_distance geo stops_in P D p d
                                     \<le> candidate_distance geo stops_in P D (fst q) (snd q)))))"

subsection \<open>A small scenario\<close>

text \<open>
  Two places 2 km apart; user 1 asks for a ride from the first to the second with a
  companion, user 2 asks for the same ride alone.
\<close>

definition example_geo :: geodesy where
  "example_geo p q = (if p = q then 0 else 2000)"

definition example_stops :: "stop list" where
  "example_stops =
     [\<lparr> stype = Pickup, location = (0, 0), address = Some ''A'', passengerId = Some 1,
        sequence = 0 \<rparr>,
      \<lparr> stype = Dropoff, location = (1, 1), address = Some ''B'', passengerId = Some 1,
        sequence = 1 \<rparr>]"

definition first_request :: ride_request where
  "first_request =
     \<lparr> rq_id = 11, rq_userId = 1, rq_pickupLocation = (0, 0), rq_pickupAddress = ''A'',
       rq_dropoffLocation = (1, 1), rq_dropoffAddress = ''B'', rq_passengers = 2,
       rq_luggage = 1, rq_detourTolerance = 3 / 10, rq_status = ''pending'',
       rq_matchedPoolId = None \<rparr>"

definition second_request :: ride_request where
  "second_request =
     \<lparr> rq_id = 12, rq_userId = 2, rq_pickupLocation = (0, 0), rq_pickupAddress = ''A'',
       rq_dropoffLocation = (1, 1), rq_dropoffAddress = ''B'', rq_passengers = 1,
       rq_luggage = 1, rq_detourTolerance = 3 / 10, rq_status = ''pending'',
       rq_matchedPoolId = None \<rparr>"

definition example_env :: env where
  "example_env =
     \<lparr> env_geo = example_geo, env_cfg = default_config, env_now = 100, env_hour = 12,
       env_uuid = ''u'', env_newPoolId = 7, env_accepts = (\<lambda>pool. True), env_scan = [7] \<rparr>"

text \<open>The same deployment started with \<open>MAX_POOL_SIZE=1\<close> in its environment.\<close>

definition cramped_env :: env where
  "cramped_env = example_env\<lparr> env_cfg := default_config\<lparr> MAX_POOL_SIZE := 1 \<rparr> \<rparr>"

definition empty_world :: world where
  "empty_world =
     \<lparr> pools = Map.empty, requests = [11 \<mapsto> first_request, 12 \<mapsto> second_request],
       locks = Map.empty, setCalls = 0 \<rparr>"

text \<open>The pool that \<open>createNewPool\<close> makes of the first request, and the state after it.\<close>

definition first_pool :: ride_pool where
  "first_pool =
     \<lparr> status = ''forming'',
       passengers =
         [\<lparr> userId = 1, requestId = 11, pickupLocation = (0, 0), pickupAddress = ''A'',
            dropoffLocation = (1, 1), dropoffAddress = ''B'', price = Num (17 / 2),
            passengerCount = 2, luggageCount = 1, passengerStatus = ''waiting'' \<rparr>],
       route =
         \<lparr> stops = example_stops, totalDistance = 2, totalDuration = 3,
           optimizedAt = Some 100 \<rparr>,
       vehicle = \<lparr> vehicleType = ''sedan'', capacity = 4, luggageCapacity = 6 \<rparr>,
       currentOccupancy = \<lparr> seats = 2, luggage = 1 \<rparr>,
       pricing = \<lparr> basePrice = 17 / 2, surgeFactor = 1, totalPrice = 17 / 2,
                   poolingDiscount = 0 \<rparr>,
       docVersion = 0, matchedAt = None, cancelledAt = None, cancelReason = None \<rparr>"

definition example_world :: world where
  "example_world =
     \<lparr> pools = [7 \<mapsto> first_pool],
       requests = [12 \<mapsto> second_request,
                   11 \<mapsto> first_request\<lparr> rq_status := ''matched'', rq_matchedPoolId := Some 7 \<rparr>],
       locks = Map.empty, setCalls = 0 \<rparr>"

text \<open>The pool that deployment makes of the first request.\<close>

definition cramped_pool :: ride_pool where
  "cramped_pool = first_pool\<lparr> vehicle := (vehicle first_pool)\<lparr> capacity := 1 \<rparr> \<rparr>"

text \<open>The same state while another holder has the lock of pool 7.\<close>

definition locked_world :: world where
  "locked_world = example_world\<lparr> locks := [7 \<mapsto> ''held''] \<rparr>"

section \<open>Properties of the pricing engine\<close>

lemma js_max_Num: "js_max (Num a) (Num b) = Num (max a b)"
  by (simp add: js_max_def max_def)

lemma calculatePoolingDiscount_Num:
  "calculatePoolingDiscount n (Num d) =
     Num (max (min ((n - 1) * (15 / 100)) (45 / 100) - d * (3 / 10)) (10 / 100))"
  by (simp add: calculatePoolingDiscount_def js_sub_def js_max_Num Let_def)

text \<open>
  C5, amended in its example: \<open>calculateBasePrice\<close> is the maximum of the metered
  fare and the minimum fare, and with the default rates the fare of 10 km and 15 minutes
  is \<open>10 * 2.0 + 15 * 0.5 + 3.0 = 30.5\<close>, the value the repository's own test expects.
\<close>

theorem C5_base_price_formula:
  "calculateBasePrice cfg distanceKm durationMin =
     max (distanceKm * BASE_RATE_PER_KM cfg + durationMin * BASE_RATE_PER_MIN cfg
            + AIRPORT_FEE cfg) (MINIMUM_FARE cfg)
   \<and> calculateBasePrice default_config 10 15 = 61 / 2"
  by (simp add: calculateBasePrice_def default_config_def Let_def)

text \<open>
  C5 as stated fails in its example: \<open>calculateBasePrice 10 15\<close> under the default
  rates is not \<open>33.5\<close>.
\<close>

theorem C5_base_price_counterexample:
  "calculateBasePrice default_config 10 15 \<noteq> 67 / 2"
  by (simp add: calculateBasePrice_def default_config_def Let_def)

text \<open>
  C4: the code tests \<open>distanceKm > 20\<close> before \<open>distanceKm > 50\<close>, so a 60 km trip
  gets the factor \<open>0.90\<close>, not the \<open>0.85\<close> that the second branch and its comment
  intend.
\<close>

theorem C4_distance_discount_at_60:
  "getDistanceDiscount 60 = 90 / 100 \<and> getDistanceDiscount 60 \<noteq> 85 / 100"
  by (simp add: getDistanceDiscount_def)

text \<open>
  C6: for a passenger count \<open>n \<ge> 1\<close> and a detour fraction \<open>d\<close> between \<open>0\<close> and
  \<open>1\<close> the pooling discount is \<open>max (min ((n - 1) * 0.15) 0.45 - d * 0.3) 0.10\<close>; at
  detour \<open>0\<close> it does not decrease when the passenger count grows from \<open>n\<close> to
  \<open>n + k\<close>, and it lies between \<open>0.10\<close> and \<open>0.45\<close>.
\<close>

theorem C6_pooling_discount:
  assumes "1 \<le> n" and "0 \<le> d" and "d \<le> 1"
  shows "calculatePoolingDiscount n (Num d) =
           Num (max (min ((n - 1) * (15 / 100)) (45 / 100) - d * (3 / 10)) (10 / 100))
         \<and> (\<exists>x y. calculatePoolingDiscount n (Num 0) = Num x
                \<and> calculatePoolingDiscount (n + k) (Num 0) = Num y
                \<and> (0 \<le> k \<longrightarrow> x \<le> y))
         \<and> (\<exists>z. calculatePoolingDiscount n (Num d) = Num z
                \<and> 10 / 100 \<le> z \<and> z \<le> 45 / 100)"
proof -
  let ?b = "min ((n - 1) * (15 / 100)) (45 / 100 :: rat)"
  have mono: "0 \<le> k \<Longrightarrow> max (?b - 0 * (3 / 10)) (10 / 100)
                \<le> max (min ((n + k - 1) * (15 / 100)) (45 / 100) - 0 * (3 / 10)) (10 / 100)"
    by (auto simp: min_def max_def)
  have "?b \<le> 45 / 100" by simp
  moreover have "0 \<le> d * (3 / 10)" using assms(2) by simp
  ultimately have "?b - d * (3 / 10) \<le> 45 / 100" by linarith
  moreover have "(10 / 100 :: rat) \<le> 45 / 100" by simp
  ultimately have upper: "max (?b - d * (3 / 10)) (10 / 100) \<le> 45 / 100"
    by (rule max.boundedI)
  have lower: "(10 / 100 :: rat) \<le> max (?b - d * (3 / 10)) (10 / 100)"
    by (rule max.cobounded2)
  show ?thesis
    unfolding calculatePoolingDiscount_Num using mono upper lower by blast
qed

theorem C6_pooling_discount_witness:
  "calculatePoolingDiscount 1 (Num 0) = Num (1 / 10)
   \<and> calculatePoolingDiscount 2 (Num 0) = Num (15 / 100)
   \<and> calculatePoolingDiscount 3 (Num 0) = Num (30 / 100)
   \<and> calculatePoolingDiscount 4 (Num 0) = Num (45 / 100)
   \<and> calculatePoolingDiscount 4 (Num 1) = Num (15 / 100)"
  using C6_pooling_discount [of 1 0 1] C6_pooling_discount [of 2 0 1]
    C6_pooling_discount [of 3 0 1] C6_pooling_discount [of 4 0 0]
    C6_pooling_discount [of 4 1 0]
  by simp














section \<open>Properties of the detour search\<close>

lemma unsequenced_update [simp]: "unsequenced (s\<lparr>sequence := i\<rparr>) = unsequenced s"
  by (simp add: unsequenced_def)

lemma location_unsequenced [simp]: "location (unsequenced s) = location s"
  by (simp add: unsequenced_def)

lemma calculateRouteDistance_cong:
  assumes "map location xs = map location ys"
  shows "calculateRouteDistance geo xs = calculateRouteDistance geo ys"
proof -
  have len: "length xs = length ys" using assms by (rule map_eq_imp_length_eq)
  have nth: "\<And>i. i < length xs \<Longrightarrow> location (xs ! i) = location (ys ! i)"
    using assms len by (metis nth_map)
  show ?thesis
    unfolding calculateRouteDistance_def len
    by (rule foldl_cong) (use nth len in auto)
qed

lemma calculateRouteDistance_unsequenced:
  assumes "map unsequenced xs = map unsequenced ys"
  shows "calculateRouteDistance geo xs = calculateRouteDistance geo ys"
proof -
  have "map location (map unsequenced xs) = map location (map unsequenced ys)"
    using assms by simp
  then have "map location xs = map location ys" by (simp add: o_def)
  then show ?thesis by (rule calculateRouteDistance_cong)
qed

lemma foldl_add_nonneg:
  "(0::rat) \<le> a \<Longrightarrow> (\<And>x. x \<in> set xs \<Longrightarrow> 0 \<le> f x) \<Longrightarrow> 0 \<le> foldl (\<lambda>t x. t + f x) a xs"
  by (induction xs arbitrary: a) simp_all

lemma calculateRouteDistance_nonneg: "0 \<le> calculateRouteDistance geo xs"
  unfolding calculateRouteDistance_def
  by (rule foldl_add_nonneg) (simp_all add: calculateDistance_def)

lemma deref_unsequenced_cong:
  assumes "map unsequenced h1 = map unsequenced h2" and "\<forall>r\<in>set rs. valid_ref (length h1) r"
  shows "map (\<lambda>r. unsequenced (deref h1 r)) rs = map (\<lambda>r. unsequenced (deref h2 r)) rs"
proof -
  have len: "length h1 = length h2" using assms(1) by (rule map_eq_imp_length_eq)
  have "unsequenced (deref h1 r) = unsequenced (deref h2 r)" if "valid_ref (length h1) r" for r
  proof (cases r)
    case (Orig k)
    with that have "k < length h1" by simp
    then have "unsequenced (h1 ! k) = map unsequenced h1 ! k"
      and "unsequenced (h2 ! k) = map unsequenced h2 ! k" using len by simp_all
    with assms(1) Orig show ?thesis by simp
  next
    case (Fresh s)
    then show ?thesis by simp
  qed
  with assms(2) show ?thesis by simp
qed

lemma unsequenced_list_update:
  "map unsequenced (h[k := (h ! k)\<lparr>sequence := i\<rparr>]) = map unsequenced h"
  by (cases "k < length h") (simp_all add: map_update list_update_same_conv list_update_beyond)

lemma set_sequences_props:
  assumes "set_sequences rs i h = (rs', h')" and "\<forall>r\<in>set rs. valid_ref (length h) r"
  shows "map unsequenced h' = map unsequenced h
       \<and> (\<forall>r\<in>set rs'. valid_ref (length h) r)
       \<and> map (\<lambda>r. unsequenced (deref h' r)) rs' = map (\<lambda>r. unsequenced (deref h r)) rs"
  using assms
proof (induction rs i h arbitrary: rs' h' rule: set_sequences.induct)
  case (1 idx heap)
  then show ?case by simp
next
  case (2 k rs idx heap)
  let ?h1 = "heap[k := (heap ! k)\<lparr>sequence := idx\<rparr>]"
  obtain rs'' where run: "set_sequences rs (Suc idx) ?h1 = (rs'', h')" and rs': "rs' = Orig k # rs''"
    using "2.prems"(1) by (auto simp: Let_def split: prod.splits)
  have h1: "map unsequenced ?h1 = map unsequenced heap" by (rule unsequenced_list_update)
  have valid1: "\<forall>r\<in>set rs. valid_ref (length ?h1) r" using "2.prems"(2) by simp
  from "2.IH" [OF run valid1]
  have a: "map unsequenced h' = map unsequenced ?h1"
    and b: "\<forall>r\<in>set rs''. valid_ref (length ?h1) r"
    and c: "map (\<lambda>r. unsequenced (deref h' r)) rs'' = map (\<lambda>r. unsequenced (deref ?h1 r)) rs"
    by blast+
  have d: "map (\<lambda>r. unsequenced (deref ?h1 r)) rs = map (\<lambda>r. unsequenced (deref heap r)) rs"
    using h1 valid1 by (rule deref_unsequenced_cong)
  have eq: "map unsequenced h' = map unsequenced heap" using a h1 by simp
  have "\<forall>r\<in>set (Orig k # rs). valid_ref (length h') r"
    using "2.prems"(2) map_eq_imp_length_eq [OF eq] by simp
  with eq have e: "map (\<lambda>r. unsequenced (deref h' r)) (Orig k # rs) = map (\<lambda>r. unsequenced (deref heap r)) (Orig k # rs)"
    by (rule deref_unsequenced_cong)
  show ?case using eq b c d e rs' "2.prems"(2) by simp
next
  case (3 s rs idx heap)
  obtain rs'' where run: "set_sequences rs (Suc idx) heap = (rs'', h')"
    and rs': "rs' = Fresh (s\<lparr>sequence := idx\<rparr>) # rs''"
    using "3.prems"(1) by (auto simp: Let_def split: prod.splits)
  have valid1: "\<forall>r\<in>set rs. valid_ref (length heap) r" using "3.prems"(2) by simp
  from "3.IH" [OF run valid1] rs' show ?case by simp
qed

lemma map_splice0: "map f (splice0 i x xs) = splice0 i (f x) (map f xs)"
  by (simp add: splice0_def take_map drop_map)

lemma splice0_insertion:
  assumes "p \<le> d" and "d \<le> length xs"
  shows "splice0 p a (splice0 d b xs) = insertion xs a b p d"
  using assms by (simp add: splice0_def insertion_def min_def)

lemma length_insertion:
  "p \<le> d \<Longrightarrow> d \<le> length xs \<Longrightarrow> length (insertion xs a b p d) = length xs + 2"
  by (simp add: insertion_def min_def)

lemma deref_copy: "map (deref h) (map Orig [0..<length h]) = h"
  by (simp add: map_nth o_def)

lemma valid_splice0:
  "\<forall>r\<in>set rs. valid_ref n r \<Longrightarrow> valid_ref n x \<Longrightarrow> \<forall>r\<in>set (splice0 i x rs). valid_ref n r"
  by (auto simp: splice0_def dest: in_set_takeD in_set_dropD)

text \<open>What one pass of the loop body computes.\<close>

lemma detour_step_result:
  assumes pd: "p \<le> d" "d \<le> length stops_in"
    and h: "map unsequenced (originals st) = map unsequenced stops_in"
    and orig: "orig \<noteq> 0"
  shows "\<exists>R h'. map unsequenced h' = map unsequenced stops_in
           \<and> (\<forall>r\<in>set R. valid_ref (length stops_in) r)
           \<and> map (\<lambda>r. unsequenced (deref h' r)) R = map unsequenced (candidate stops_in P D p d)
           \<and> detour_step geo P D orig p d st =
               (if js_lt (Num ((candidate_distance geo stops_in P D p d - orig) / orig))
                     (minDetour st)
                then \<lparr> originals = h',
                       minDetour = Num ((candidate_distance geo stops_in P D p d - orig) / orig),
                       bestRouteRef = Some R,
                       bestDistance = candidate_distance geo stops_in P D p d \<rparr>
                else st\<lparr>originals := h'\<rparr>)"
proof -
  define c where "c = candidate_distance geo stops_in P D p d"
  let ?h = "originals st"
  let ?rs = "splice0 p (Fresh (new_stop Pickup P p))
               (splice0 d (Fresh (new_stop Dropoff D d)) (map Orig [0..<length ?h]))"
  have len: "length ?h = length stops_in" using h by (rule map_eq_imp_length_eq)
  obtain R h' where run: "set_sequences ?rs 0 ?h = (R, h')" by (cases "set_sequences ?rs 0 ?h")
  have valid: "\<forall>r\<in>set ?rs. valid_ref (length ?h) r"
    by (intro valid_splice0) auto
  from set_sequences_props [OF run valid]
  have h': "map unsequenced h' = map unsequenced ?h"
    and vR: "\<forall>r\<in>set R. valid_ref (length ?h) r"
    and view: "map (\<lambda>r. unsequenced (deref h' r)) R = map (\<lambda>r. unsequenced (deref ?h r)) ?rs"
    by blast+
  have "map (\<lambda>r. unsequenced (deref ?h r)) ?rs = map unsequenced (map (deref ?h) ?rs)"
    by simp
  also have "map (deref ?h) ?rs
      = splice0 p (new_stop Pickup P p) (splice0 d (new_stop Dropoff D d) ?h)"
    by (simp add: map_splice0 deref_copy del: map_map)
  also have "map unsequenced \<dots>
      = splice0 p (unsequenced (new_stop Pickup P p))
          (splice0 d (unsequenced (new_stop Dropoff D d)) (map unsequenced ?h))"
    by (simp add: map_splice0)
  also have "\<dots> = splice0 p (unsequenced (new_stop Pickup P 0))
          (splice0 d (unsequenced (new_stop Dropoff D 0)) (map unsequenced stops_in))"
    by (simp add: h new_stop_def unsequenced_def)
  also have "\<dots> = map unsequenced (splice0 p (new_stop Pickup P 0)
          (splice0 d (new_stop Dropoff D 0) stops_in))"
    by (simp add: map_splice0)
  also have "\<dots> = map unsequenced (candidate stops_in P D p d)"
    using pd by (simp add: candidate_def splice0_insertion)
  finally have cand: "map (\<lambda>r. unsequenced (deref ?h r)) ?rs
      = map unsequenced (candidate stops_in P D p d)" .
  have view': "map (\<lambda>r. unsequenced (deref h' r)) R = map unsequenced (candidate stops_in P D p d)"
    using view cand by simp
  have "map unsequenced (map (deref h') R) = map unsequenced (candidate stops_in P D p d)"
    using view' by (simp add: o_def)
  then have dist: "calculateRouteDistance geo (map (deref h') R) = c"
    unfolding c_def candidate_distance_def by (rule calculateRouteDistance_unsequenced)
  have step: "detour_step geo P D orig p d st =
               (if js_lt (Num ((c - orig) / orig)) (minDetour st)
                then \<lparr> originals = h', minDetour = Num ((c - orig) / orig),
                       bestRouteRef = Some R, bestDistance = c \<rparr>
                else st\<lparr>originals := h'\<rparr>)"
    using orig by (simp add: detour_step_def Let_def run dist)
  show ?thesis using h' h vR len view' step unfolding c_def by auto
qed

lemma detour_invI:
  assumes "map unsequenced (originals st) = map unsequenced stops_in"
    and "bestRouteRef st = Some R"
    and "tried = pre @ (p, d) # post" and "p \<le> d" and "d \<le> length stops_in"
    and "\<forall>r\<in>set R. valid_ref (length stops_in) r"
    and "map (\<lambda>r. unsequenced (deref (originals st) r)) R
           = map unsequenced (candidate stops_in P D p d)"
    and "bestDistance st = candidate_distance geo stops_in P D p d"
    and "minDetour st = Num ((candidate_distance geo stops_in P D p d - orig) / orig)"
    and "\<forall>q\<in>set pre. candidate_distance geo stops_in P D p d
                        < candidate_distance geo stops_in P D (fst q) (snd q)"
    and "\<forall>q\<in>set post. candidate_distance geo stops_in P D p d
                        \<le> candidate_distance geo stops_in P D (fst q) (snd q)"
  shows "detour_inv geo stops_in P D orig tried st"
proof -
  have "\<exists>pre p d post.
          tried = pre @ (p, d) # post \<and> p \<le> d \<and> d \<le> length stops_in
          \<and> (\<forall>r\<in>set R. valid_ref (length stops_in) r)
          \<and> map (\<lambda>r. unsequenced (deref (originals st) r)) R
              = map unsequenced (candidate stops_in P D p d)
          \<and> bestDistance st = candidate_distance geo stops_in P D p d
          \<and> minDetour st = Num ((candidate_distance geo stops_in P D p d - orig) / orig)
          \<and> (\<forall>q\<in>set pre. candidate_distance geo stops_in P D p d
                             < candidate_distance geo stops_in P D (fst q) (snd q))
          \<and> (\<forall>q\<in>set post. candidate_distance geo stops_in P D p d
                             \<le> candidate_distance geo stops_in P D (fst q) (snd q))"
    using assms(3-) by blast
  with assms(1,2) show ?thesis unfolding detour_inv_def by simp
qed

lemma detour_less_iff:
  assumes "(0::rat) < orig"
  shows "(a - orig) / orig < (b - orig) / orig \<longleftrightarrow> a < b"
  using assms by (simp add: divide_less_cancel)

lemma detour_inv_step:
  assumes inv: "detour_inv geo stops_in P D orig tried st"
    and orig: "0 < orig" and pd: "p \<le> d" "d \<le> length stops_in"
  shows "detour_inv geo stops_in P D orig (tried @ [(p, d)]) (detour_step geo P D orig p d st)"
proof -
  let ?c = "candidate_distance geo stops_in P D"
  have h: "map unsequenced (originals st) = map unsequenced stops_in"
    using inv by (simp add: detour_inv_def)
  have len: "length (originals st) = length stops_in" using h by (rule map_eq_imp_length_eq)
  from orig have nz: "orig \<noteq> 0" by simp
  from detour_step_result [OF pd h nz, where geo = geo and P = P and D = D] obtain R h' where
    h': "map unsequenced h' = map unsequenced stops_in"
    and vR: "\<forall>r\<in>set R. valid_ref (length stops_in) r"
    and view: "map (\<lambda>r. unsequenced (deref h' r)) R = map unsequenced (candidate stops_in P D p d)"
    and step: "detour_step geo P D orig p d st =
               (if js_lt (Num ((?c p d - orig) / orig)) (minDetour st)
                then \<lparr> originals = h', minDetour = Num ((?c p d - orig) / orig),
                       bestRouteRef = Some R, bestDistance = ?c p d \<rparr>
                else st\<lparr>originals := h'\<rparr>)"
    by blast
  show ?thesis
  proof (cases "bestRouteRef st")
    case None
    with inv have e: "tried = []" and "minDetour st = PInf" by (simp_all add: detour_inv_def)
    then have st': "detour_step geo P D orig p d st =
          \<lparr> originals = h', minDetour = Num ((?c p d - orig) / orig),
            bestRouteRef = Some R, bestDistance = ?c p d \<rparr>"
      using step by simp
    show ?thesis
      unfolding st'
      by (rule detour_invI [where pre = "[]" and post = "[]" and p = p and d = d and R = R])
         (use e h' vR view pd in simp_all)
  next
    case (Some R0)
    with inv obtain pre p0 d0 post where
      tried: "tried = pre @ (p0, d0) # post" and pd0: "p0 \<le> d0" "d0 \<le> length stops_in"
      and vR0: "\<forall>r\<in>set R0. valid_ref (length stops_in) r"
      and view0: "map (\<lambda>r. unsequenced (deref (originals st) r)) R0
                   = map unsequenced (candidate stops_in P D p0 d0)"
      and bd: "bestDistance st = ?c p0 d0"
      and md: "minDetour st = Num ((?c p0 d0 - orig) / orig)"
      and before: "\<forall>q\<in>set pre. ?c p0 d0 < ?c (fst q) (snd q)"
      and after: "\<forall>q\<in>set post. ?c p0 d0 \<le> ?c (fst q) (snd q)"
      by (auto simp: detour_inv_def)
    show ?thesis
    proof (cases "?c p d < ?c p0 d0")
      case True
      then have st': "detour_step geo P D orig p d st =
          \<lparr> originals = h', minDetour = Num ((?c p d - orig) / orig),
            bestRouteRef = Some R, bestDistance = ?c p d \<rparr>"
        using step md orig by (simp add: detour_less_iff)
      have all: "\<forall>q\<in>set tried. ?c p d < ?c (fst q) (snd q)"
        using True before after tried by fastforce
      show ?thesis
        unfolding st'
        by (rule detour_invI [where pre = tried and post = "[]" and p = p and d = d and R = R])
           (use all h' vR view pd in simp_all)
    next
      case False
      then have st': "detour_step geo P D orig p d st = st\<lparr>originals := h'\<rparr>"
        using step md orig by (simp add: detour_less_iff)
      have same: "map unsequenced h' = map unsequenced (originals st)" using h h' by simp
      have "\<forall>r\<in>set R0. valid_ref (length h') r"
        using vR0 map_eq_imp_length_eq [OF h'] by simp
      with same have "map (\<lambda>r. unsequenced (deref h' r)) R0
                   = map (\<lambda>r. unsequenced (deref (originals st) r)) R0"
        by (rule deref_unsequenced_cong)
      with view0 have view1: "map (\<lambda>r. unsequenced (deref h' r)) R0
                   = map unsequenced (candidate stops_in P D p0 d0)" by simp
      have after': "\<forall>q\<in>set (post @ [(p, d)]). ?c p0 d0 \<le> ?c (fst q) (snd q)"
        using after False by auto
      show ?thesis
        unfolding st'
        by (rule detour_invI [where pre = pre and post = "post @ [(p, d)]" and p = p0
              and d = d0 and R = R0])
           (use after' before view1 vR0 pd0 bd md h' Some tried in simp_all)
    qed
  qed
qed

lemma detour_inv_fold:
  assumes "detour_inv geo stops_in P D orig tried st" and "0 < orig"
    and "\<forall>q\<in>set qs. fst q \<le> snd q \<and> snd q \<le> length stops_in"
  shows "detour_inv geo stops_in P D orig (tried @ qs)
           (fold (\<lambda>q. detour_step geo P D orig (fst q) (snd q)) qs st)"
  using assms
proof (induction qs arbitrary: tried st)
  case Nil
  then show ?case by simp
next
  case (Cons q qs)
  have "detour_inv geo stops_in P D orig (tried @ [(fst q, snd q)])
          (detour_step geo P D orig (fst q) (snd q) st)"
    using Cons.prems by (intro detour_inv_step) auto
  from Cons.IH [OF this Cons.prems(2)] Cons.prems(3) show ?case by simp
qed

lemma fold_concat_list: "fold f (concat xss) st = fold (fold f) xss st"
  by (induction xss arbitrary: st) simp_all

lemma nested_fold_positions:
  "fold (\<lambda>p. fold (f p) [p..<Suc n]) [0..<Suc n] st
     = fold (\<lambda>q. f (fst q) (snd q)) (positions n) st"
  unfolding positions_def
  by (simp add: fold_concat_list fold_map o_def del: upt_Suc)

lemma set_positions: "set (positions n) = {(p, d). p \<le> d \<and> d \<le> n}"
  by (fastforce simp add: positions_def less_Suc_eq_le simp del: upt_Suc)

lemma positions_nonempty: "positions n \<noteq> []"
proof -
  have "(0, 0) \<in> set (positions n)" unfolding set_positions by simp
  then show ?thesis by auto
qed

lemma sorted_wrt_concat:
  "sorted_wrt R (concat xss) \<longleftrightarrow>
     (\<forall>xs\<in>set xss. sorted_wrt R xs) \<and> sorted_wrt (\<lambda>xs ys. \<forall>x\<in>set xs. \<forall>y\<in>set ys. R x y) xss"
  by (induction xss) (auto simp: sorted_wrt_append)

lemma positions_sorted: "sorted_wrt lex_before (positions n)"
proof -
  have inner: "sorted_wrt lex_before (map (Pair p) [p..<Suc n])" for p
  proof -
    have "sorted_wrt (\<lambda>a b. lex_before (p, a) (p, b)) [p..<Suc n]"
      by (rule sorted_wrt_mono_rel [OF _ sorted_wrt_upt]) (simp add: lex_before_def)
    then show ?thesis by (simp add: sorted_wrt_map del: upt_Suc)
  qed
  have outer: "sorted_wrt (\<lambda>p p'. \<forall>x\<in>set (map (Pair p) [p..<Suc n]).
                  \<forall>y\<in>set (map (Pair p') [p'..<Suc n]). lex_before x y) [0..<Suc n]"
    by (rule sorted_wrt_mono_rel [OF _ sorted_wrt_upt]) (auto simp: lex_before_def)
  show ?thesis
    unfolding positions_def sorted_wrt_concat
    using inner outer by (simp add: sorted_wrt_map del: upt_Suc)
qed

lemma lex_before_earlier:
  assumes split: "positions n = pre @ q # post" and mem: "q' \<in> set (positions n)"
    and before: "lex_before q' q"
  shows "q' \<in> set pre"
proof (rule ccontr)
  assume "q' \<notin> set pre"
  with mem split have "q' = q \<or> q' \<in> set post" by auto
  moreover have "\<forall>y\<in>set post. lex_before q y"
    using positions_sorted [of n] unfolding split by (simp add: sorted_wrt_append)
  ultimately show False using before by (auto simp: lex_before_def)
qed

lemma calculateDetour_nonempty:
  assumes "stops_in \<noteq> []"
  shows "calculateDetour geo stops_in P D =
     (let st = fold (\<lambda>q. detour_step geo P D (calculateRouteDistance geo stops_in) (fst q) (snd q))
                 (positions (length stops_in))
                 \<lparr> originals = stops_in, minDetour = PInf, bestRouteRef = None,
                   bestDistance = 0 \<rparr>
      in \<lparr> detourPercentage = minDetour st,
           bestRoute = map_option (map (deref (originals st))) (bestRouteRef st),
           newDistance = bestDistance st \<rparr>)"
  using assms
  by (simp add: calculateDetour_def Let_def nested_fold_positions del: upt_Suc)


lemma calculateDetour_search:
  assumes a: "stops_in \<noteq> [] \<and> 0 < calculateRouteDistance geo stops_in"
  shows "\<exists>p d r.
            p \<le> d \<and> d \<le> length stops_in
          \<and> bestRoute (calculateDetour geo stops_in P D) = Some r
          \<and> length r = length stops_in + 2
          \<and> map unsequenced r = map unsequenced (candidate stops_in P D p d)
          \<and> newDistance (calculateDetour geo stops_in P D) = calculateRouteDistance geo r
          \<and> calculateRouteDistance geo r = candidate_distance geo stops_in P D p d
          \<and> detourPercentage (calculateDetour geo stops_in P D) =
              Num ((calculateRouteDistance geo r - calculateRouteDistance geo stops_in)
                    / calculateRouteDistance geo stops_in)
          \<and> (\<forall>p' d'. p' \<le> d' \<and> d' \<le> length stops_in \<longrightarrow>
                 candidate_distance geo stops_in P D p d
                   \<le> candidate_distance geo stops_in P D p' d')
          \<and> (\<forall>p' d'. p' \<le> d' \<and> d' \<le> length stops_in \<and> lex_before (p', d') (p, d) \<longrightarrow>
                 candidate_distance geo stops_in P D p d
                   < candidate_distance geo stops_in P D p' d')"
proof -
  let ?n = "length stops_in"
  let ?orig = "calculateRouteDistance geo stops_in"
  let ?c = "candidate_distance geo stops_in P D"
  let ?st0 = "\<lparr> originals = stops_in, minDetour = PInf, bestRouteRef = None,
                 bestDistance = 0 \<rparr>"
  define st where "st = fold (\<lambda>q. detour_step geo P D ?orig (fst q) (snd q)) (positions ?n) ?st0"
  have res: "calculateDetour geo stops_in P D =
      \<lparr> detourPercentage = minDetour st,
        bestRoute = map_option (map (deref (originals st))) (bestRouteRef st),
        newDistance = bestDistance st \<rparr>"
    using a by (simp add: calculateDetour_nonempty st_def Let_def)
  have inv0: "detour_inv geo stops_in P D ?orig [] ?st0" by (simp add: detour_inv_def)
  have "\<forall>q\<in>set (positions ?n). fst q \<le> snd q \<and> snd q \<le> ?n"
    by (auto simp: set_positions)
  from detour_inv_fold [OF inv0 _ this] a
  have inv: "detour_inv geo stops_in P D ?orig (positions ?n) st" by (simp add: st_def)
  have "bestRouteRef st \<noteq> None"
    using inv positions_nonempty [of ?n] by (auto simp: detour_inv_def split: option.splits)
  then obtain R where R: "bestRouteRef st = Some R" by auto
  with inv obtain pre p d post where
    split: "positions ?n = pre @ (p, d) # post" and pd: "p \<le> d" "d \<le> ?n"
    and view: "map (\<lambda>r. unsequenced (deref (originals st) r)) R
                 = map unsequenced (candidate stops_in P D p d)"
    and bd: "bestDistance st = ?c p d"
    and md: "minDetour st = Num ((?c p d - ?orig) / ?orig)"
    and before: "\<forall>q\<in>set pre. ?c p d < ?c (fst q) (snd q)"
    and after: "\<forall>q\<in>set post. ?c p d \<le> ?c (fst q) (snd q)"
    by (auto simp: detour_inv_def)
  define r where "r = map (deref (originals st)) R"
  have shape: "map unsequenced r = map unsequenced (candidate stops_in P D p d)"
    using view by (simp add: r_def o_def)
  have "length (map unsequenced r) = length (map unsequenced (candidate stops_in P D p d))"
    using shape by simp
  then have len: "length r = ?n + 2"
    using pd by (simp add: candidate_def length_insertion)
  have dist: "calculateRouteDistance geo r = ?c p d"
    unfolding candidate_distance_def using shape by (rule calculateRouteDistance_unsequenced)
  have least: "?c p d \<le> ?c p' d'" if "p' \<le> d' \<and> d' \<le> ?n" for p' d'
  proof -
    from that have "(p', d') \<in> set (positions ?n)" by (simp add: set_positions)
    then have "(p', d') \<in> set pre \<or> (p', d') = (p, d) \<or> (p', d') \<in> set post"
      unfolding split by auto
    with before after show ?thesis by fastforce
  qed
  have first: "?c p d < ?c p' d'"
    if "p' \<le> d' \<and> d' \<le> ?n \<and> lex_before (p', d') (p, d)" for p' d'
  proof -
    from that have "(p', d') \<in> set (positions ?n)" by (simp add: set_positions)
    with split that have "(p', d') \<in> set pre" by (blast intro: lex_before_earlier)
    with before show ?thesis by fastforce
  qed
  have "p \<le> d \<and> d \<le> ?n
      \<and> bestRoute (calculateDetour geo stops_in P D) = Some r
      \<and> length r = ?n + 2
      \<and> map unsequenced r = map unsequenced (candidate stops_in P D p d)
      \<and> newDistance (calculateDetour geo stops_in P D) = calculateRouteDistance geo r
      \<and> calculateRouteDistance geo r = ?c p d
      \<and> detourPercentage (calculateDetour geo stops_in P D) =
          Num ((calculateRouteDistance geo r - ?orig) / ?orig)
      \<and> (\<forall>p' d'. p' \<le> d' \<and> d' \<le> ?n \<longrightarrow> ?c p d \<le> ?c p' d')
      \<and> (\<forall>p' d'. p' \<le> d' \<and> d' \<le> ?n \<and> lex_before (p', d') (p, d) \<longrightarrow> ?c p d < ?c p' d')"
    using pd res R len shape dist bd md least first by (simp add: r_def)
  then show ?thesis by blast
qed

lemma detour_step_zero:
  assumes "minDetour st = PInf" and "bestRouteRef st = None" and "bestDistance st = 0"
  shows "minDetour (detour_step geo P D 0 p d st) = PInf
       \<and> bestRouteRef (detour_step geo P D 0 p d st) = None
       \<and> bestDistance (detour_step geo P D 0 p d st) = 0"
proof -
  have "\<not> js_lt (js_div (Num (x - 0)) (Num 0)) PInf" if "0 \<le> x" for x :: rat
    using that by (cases "x = 0") (simp_all add: js_inf_def)
  then show ?thesis
    using assms calculateRouteDistance_nonneg
    by (simp add: detour_step_def Let_def split: prod.splits)
qed

lemma fold_detour_step_zero:
  assumes "minDetour st = PInf" and "bestRouteRef st = None" and "bestDistance st = 0"
  shows "minDetour (fold (\<lambda>q. detour_step geo P D 0 (fst q) (snd q)) qs st) = PInf
       \<and> bestRouteRef (fold (\<lambda>q. detour_step geo P D 0 (fst q) (snd q)) qs st) = None
       \<and> bestDistance (fold (\<lambda>q. detour_step geo P D 0 (fst q) (snd q)) qs st) = 0"
  using assms
proof (induction qs arbitrary: st)
  case Nil
  then show ?case by simp
next
  case (Cons q qs)
  from detour_step_zero [OF Cons.prems, of geo P D "fst q" "snd q"]
  show ?case by (simp add: Cons.IH)
qed

section \<open>Properties of the pool operations\<close>

lemma find_filter_None: "find P (filter (\<lambda>x. \<not> P x) xs) = None"
  by (induction xs) auto

lemma cancelRide_locked_requests:
  "cancelRide_locked e w uid pid = (Inr pool', w') \<Longrightarrow> requests w' = requests w"
  by (auto simp: cancelRide_locked_def removePassenger_def save_def Let_def find_filter_None
           split: option.splits if_splits prod.splits sum.splits)

lemma cancelRide_locked_locks:
  "cancelRide_locked e w uid pid = (res, w') \<Longrightarrow> locks w' = locks w \<and> setCalls w' = setCalls w"
  by (auto simp: cancelRide_locked_def removePassenger_def save_def Let_def find_filter_None findByIdAndUpdate_def
           split: option.splits if_splits prod.splits sum.splits)

lemma cancelRide_success:
  assumes "cancelRide e w uid pid = (Inr pool', w')"
  shows "locks w pid = None
         \<and> (\<exists>w2. cancelRide_locked e
                     (w\<lparr>setCalls := setCalls w + 1, locks := (locks w)(pid \<mapsto> env_uuid e)\<rparr>) uid pid
                   = (Inr pool', w2)
                 \<and> w' = w2\<lparr>locks := (locks w2)(pid := None)\<rparr>)"
  using assms
  by (auto simp: cancelRide_def acquireLock_def releaseLock_def Let_def
           dest: cancelRide_locked_locks
           split: option.splits prod.splits sum.splits if_splits)

lemma cancelRide_locked_pool:
  assumes "cancelRide_locked e w uid pid = (Inr pool', w')"
  shows "\<exists>pool p. pools w pid = Some pool \<and> find (\<lambda>p. userId p = uid) (passengers pool) = Some p
         \<and> pools w' = (pools w)(pid \<mapsto> pool')
         \<and> vehicle pool' = vehicle pool
         \<and> passengers pool' = filter (\<lambda>q. userId q \<noteq> uid) (passengers pool)
         \<and> seats (currentOccupancy pool') = seats (currentOccupancy pool) - passengerCount p
         \<and> luggage (currentOccupancy pool') = luggage (currentOccupancy pool) - luggageCount p
         \<and> (passengers pool' = [] \<longrightarrow> status pool' = ''cancelled'')
         \<and> (passengers pool' \<noteq> [] \<longrightarrow> status pool' = status pool)"
  using assms
  by (auto simp: cancelRide_locked_def removePassenger_def save_def Let_def find_filter_None
           split: option.splits if_splits prod.splits sum.splits)

text \<open>
  C9: a successful \<open>cancelRide\<close> leaves the collection of ride requests exactly as it
  was. The passenger is looked up in the pool after \<open>removePassenger\<close> has filtered out
  every entry of that user, so the lookup finds nothing and no request is updated; the
  cancelled passenger's request keeps its status. The only record that changes is the
  pool: the lock taken is released again.
\<close>

theorem C9_cancel_leaves_requests:
  assumes "cancelRide e w uid pid = (Inr pool', w')"
  shows "requests w' = requests w \<and> locks w' = locks w
         \<and> pools w' = (pools w)(pid \<mapsto> pool')"
proof -
  let ?w1 = "w\<lparr>setCalls := setCalls w + 1, locks := (locks w)(pid \<mapsto> env_uuid e)\<rparr>"
  from cancelRide_success [OF assms] obtain w2 where
    free: "locks w pid = None"
    and run: "cancelRide_locked e ?w1 uid pid = (Inr pool', w2)"
    and w': "w' = w2\<lparr>locks := (locks w2)(pid := None)\<rparr>"
    by blast
  have "requests w2 = requests ?w1" using run by (rule cancelRide_locked_requests)
  moreover have "locks w2 = locks ?w1" using cancelRide_locked_locks [OF run] by simp
  moreover have "pools w2 = (pools ?w1)(pid \<mapsto> pool')"
    using cancelRide_locked_pool [OF run] by blast
  moreover have "(locks w)(pid := None) = locks w" using free by auto
  ultimately show ?thesis using w' by simp
qed

text \<open>
  C7: when the only passenger of a pool, whose seats and luggage are the pool's whole
  occupancy, cancels successfully, the stored pool has status \<open>cancelled\<close>, no
  passengers, and occupancy \<open>0\<close> seats and \<open>0\<close> luggage.
\<close>

theorem C7_cancel_sole_passenger:
  assumes "pools w pid = Some pool" and "passengers pool = [p]" and "userId p = uid"
    and "seats (currentOccupancy pool) = passengerCount p"
    and "luggage (currentOccupancy pool) = luggageCount p"
    and "cancelRide e w uid pid = (Inr pool', w')"
  shows "status pool' = ''cancelled'' \<and> seats (currentOccupancy pool') = 0
         \<and> luggage (currentOccupancy pool') = 0 \<and> passengers pool' = []
         \<and> pools w' pid = Some pool'"
proof -
  from cancelRide_success [OF assms(6)] obtain w2 where
    run: "cancelRide_locked e (w\<lparr>setCalls := setCalls w + 1, locks := (locks w)(pid \<mapsto> env_uuid e)\<rparr>) uid pid
       = (Inr pool', w2)" and w': "w' = w2\<lparr>locks := (locks w2)(pid := None)\<rparr>"
    by blast
  from cancelRide_locked_pool [OF run] assms(1-5) w' show ?thesis by auto
qed

lemma cancelRide_sole_succeeds:
  assumes "pools w pid = Some pool" and "passengers pool = [p]" and "userId p = uid"
    and "locks w pid = None" and "\<forall>q. env_accepts e q"
  shows "\<exists>pool' w'. cancelRide e w uid pid = (Inr pool', w')"
  using assms
  by (simp add: cancelRide_def acquireLock_def cancelRide_locked_def removePassenger_def
        save_def Let_def split: prod.splits)

lemma addToExistingPool_success:
  assumes "addToExistingPool e w pd rq = (Success pr d, w')"
  shows "\<exists>pool pool'. pools w (pm_id pd) = Some pool
           \<and> canAccommodate pool (rq_passengers rq) (rq_luggage rq)
           \<and> pools w' (pm_id pd) = Some pool'
           \<and> vehicle pool' = vehicle pool
           \<and> seats (currentOccupancy pool') = seats (currentOccupancy pool) + rq_passengers rq
           \<and> luggage (currentOccupancy pool') = luggage (currentOccupancy pool) + rq_luggage rq"
  using assms
  by (auto simp: addToExistingPool_def addPassenger_def save_def Let_def findByIdAndUpdate_def
           split: option.splits if_splits prod.splits sum.splits)

lemma addToExistingPool_within:
  assumes "addToExistingPool e w pd rq = (Success pr d, w')"
  shows "\<exists>pool'. pools w' (pm_id pd) = Some pool' \<and> within_capacity pool'"
  using addToExistingPool_success [OF assms]
  by (auto simp: canAccommodate_def within_capacity_def)

lemma createNewPool_success:
  assumes "createNewPool e w rq = (Inr pool, w')"
  shows "pools w' (env_newPoolId e) = Some pool
         \<and> seats (currentOccupancy pool) = rq_passengers rq
         \<and> luggage (currentOccupancy pool) = rq_luggage rq
         \<and> capacity (vehicle pool) = of_int (MAX_POOL_SIZE (env_cfg e))
         \<and> luggageCapacity (vehicle pool) = of_int (MAX_LUGGAGE_PER_CAB (env_cfg e))"
  using assms
  by (auto simp: createNewPool_def save_def Let_def findByIdAndUpdate_def
           split: option.splits if_splits prod.splits sum.splits)

lemma cancelRide_within:
  assumes run: "cancelRide e w uid pid = (Inr pool', w')"
    and pool: "pools w pid = Some pool" and inv: "within_capacity pool"
    and nonneg: "\<forall>p\<in>set (passengers pool). 0 \<le> passengerCount p \<and> 0 \<le> luggageCount p"
  shows "pools w' pid = Some pool' \<and> within_capacity pool'"
proof -
  from cancelRide_success [OF run] obtain w2 where
    locked: "cancelRide_locked e (w\<lparr>setCalls := setCalls w + 1, locks := (locks w)(pid \<mapsto> env_uuid e)\<rparr>) uid pid
       = (Inr pool', w2)" and w': "w' = w2\<lparr>locks := (locks w2)(pid := None)\<rparr>"
    by blast
  from cancelRide_locked_pool [OF locked] pool obtain p where
    p: "find (\<lambda>p. userId p = uid) (passengers pool) = Some p"
    and stored: "pools w2 = (pools w)(pid \<mapsto> pool')"
    and veh: "vehicle pool' = vehicle pool"
    and s: "seats (currentOccupancy pool') = seats (currentOccupancy pool) - passengerCount p"
    and l: "luggage (currentOccupancy pool') = luggage (currentOccupancy pool) - luggageCount p"
    by auto
  from p have "p \<in> set (passengers pool)" by (auto simp: find_Some_iff)
  with nonneg have "0 \<le> passengerCount p" "0 \<le> luggageCount p" by auto
  with inv veh s l have "within_capacity pool'" by (simp add: within_capacity_def)
  with stored w' show ?thesis by simp
qed

lemma releaseLock_pools: "pools (releaseLock w k v) = pools w"
  by (simp add: releaseLock_def)

lemma process_new_success:
  assumes "process_new e w rq = (Inr r, w')"
  shows "\<exists>pool. createNewPool e w rq = (Inr pool, w') \<and> poolId r = env_newPoolId e"
  using assms by (auto simp: process_new_def split: prod.splits sum.splits)

lemma processRideRequest_success:
  assumes "processRideRequest e w rq = (Inr r, w')"
  shows "(\<exists>w0 pool. createNewPool e w0 rq = (Inr pool, w') \<and> poolId r = env_newPoolId e)
       \<or> (\<exists>w1 pd pr d w2 v. addToExistingPool e w1 pd rq = (Success pr d, w2)
             \<and> poolId r = pm_id pd \<and> w' = releaseLock w2 (pm_id pd) v)"
  using assms
  by (auto simp: processRideRequest_def Let_def dest!: process_new_success
           split: option.splits if_splits prod.splits sum.splits add_result.splits) blast+

text \<open>
  C2, amended: the capacity bounds hold of the stored pool after every successful
  \<open>addToExistingPool\<close>; after a successful \<open>createNewPool\<close>, and so after every
  successful \<open>processRideRequest\<close>, when the request asks for no more seats and luggage
  than the configured \<open>MAX_POOL_SIZE\<close> and \<open>MAX_LUGGAGE_PER_CAB\<close>; and after a
  successful \<open>cancelRide\<close> on a pool that satisfied the bounds and whose passengers have
  non-negative seat and luggage counts.
\<close>

theorem C2_capacity_invariant:
  "(addToExistingPool e w pd rq = (Success pr d, w')
      \<longrightarrow> (\<exists>pool'. pools w' (pm_id pd) = Some pool' \<and> within_capacity pool'))
   \<and> (createNewPool e w rq = (Inr created, w')
        \<and> rq_passengers rq \<le> of_int (MAX_POOL_SIZE (env_cfg e))
        \<and> rq_luggage rq \<le> of_int (MAX_LUGGAGE_PER_CAB (env_cfg e))
      \<longrightarrow> pools w' (env_newPoolId e) = Some created \<and> within_capacity created)
   \<and> (processRideRequest e w rq = (Inr r, w')
        \<and> rq_passengers rq \<le> of_int (MAX_POOL_SIZE (env_cfg e))
        \<and> rq_luggage rq \<le> of_int (MAX_LUGGAGE_PER_CAB (env_cfg e))
      \<longrightarrow> (\<exists>pool'. pools w' (poolId r) = Some pool' \<and> within_capacity pool'))
   \<and> (cancelRide e w uid pid = (Inr left, w') \<and> pools w pid = Some pool
        \<and> within_capacity pool
        \<and> (\<forall>p\<in>set (passengers pool). 0 \<le> passengerCount p \<and> 0 \<le> luggageCount p)
      \<longrightarrow> pools w' pid = Some left \<and> within_capacity left)"
proof (intro conjI impI)
  assume "addToExistingPool e w pd rq = (Success pr d, w')"
  then show "\<exists>pool'. pools w' (pm_id pd) = Some pool' \<and> within_capacity pool'"
    by (rule addToExistingPool_within)
next
  assume a: "createNewPool e w rq = (Inr created, w')
        \<and> rq_passengers rq \<le> of_int (MAX_POOL_SIZE (env_cfg e))
        \<and> rq_luggage rq \<le> of_int (MAX_LUGGAGE_PER_CAB (env_cfg e))"
  with createNewPool_success [of e w rq created w']
  show "pools w' (env_newPoolId e) = Some created" "within_capacity created"
    by (simp_all add: within_capacity_def)
next
  assume a: "processRideRequest e w rq = (Inr r, w')
        \<and> rq_passengers rq \<le> of_int (MAX_POOL_SIZE (env_cfg e))
        \<and> rq_luggage rq \<le> of_int (MAX_LUGGAGE_PER_CAB (env_cfg e))"
  from processRideRequest_success [of e w rq r w'] a
  consider (new) w0 pool where "createNewPool e w0 rq = (Inr pool, w')" "poolId r = env_newPoolId e"
    | (old) w1 pd pr d w2 v where "addToExistingPool e w1 pd rq = (Success pr d, w2)"
        "poolId r = pm_id pd" "w' = releaseLock w2 (pm_id pd) v"
    by blast
  then show "\<exists>pool'. pools w' (poolId r) = Some pool' \<and> within_capacity pool'"
  proof cases
    case new
    with createNewPool_success [of e w0 rq pool w'] a show ?thesis
      by (simp add: within_capacity_def)
  next
    case old
    with addToExistingPool_within [of e w1 pd rq pr d w2] show ?thesis
      by (simp add: releaseLock_pools)
  qed
next
  assume a: "cancelRide e w uid pid = (Inr left, w') \<and> pools w pid = Some pool
        \<and> within_capacity pool
        \<and> (\<forall>p\<in>set (passengers pool). 0 \<le> passengerCount p \<and> 0 \<le> luggageCount p)"
  then show "pools w' pid = Some left" "within_capacity left"
    using cancelRide_within [of e w uid pid left w' pool] by simp_all
qed

text \<open>
  C8, amended: when an unexpired lock exists for the pool, \<open>acquireLock\<close> sends exactly
  one \<open>SET\<close> command and throws; \<open>cancelRide\<close>, and \<open>processRideRequest\<close> when that
  pool is its best match, end with this error after that single attempt, with no other
  change of the state.
\<close>

theorem C8_lock_failure_not_retried:
  assumes "locks w pid = Some held"
  shows "acquireLock e w pid = (Inl (Error ''Failed to acquire lock''), w\<lparr>setCalls := setCalls w + 1\<rparr>)
       \<and> cancelRide e w uid pid = (Inl (Error ''Failed to acquire lock''), w\<lparr>setCalls := setCalls w + 1\<rparr>)
       \<and> (findBestMatch e rq (findNearbyPools e w (rq_pickupLocation rq) (rq_passengers rq) (rq_luggage rq))
            = Some \<lparr> pm_id = pid, calculatedDetour = cd \<rparr>
          \<longrightarrow> processRideRequest e w rq
                = (Inl (Error ''Failed to acquire lock''), w\<lparr>setCalls := setCalls w + 1\<rparr>))"
proof -
  have acq: "acquireLock e w pid = (Inl (Error ''Failed to acquire lock''), w\<lparr>setCalls := setCalls w + 1\<rparr>)"
    using assms by (simp add: acquireLock_def Let_def)
  have best_nonempty: "findBestMatch e rq [] = None" by (simp add: findBestMatch_def)
  show ?thesis
    using acq best_nonempty
    by (auto simp: cancelRide_def processRideRequest_def Let_def)
qed

section \<open>The scenario\<close>

lemma upt_small: "[0..<2] = [0, 1]" "[0..<3] = [0, 1, 2]"
  by (simp_all add: upt_conv_Cons)

lemma calculateRouteDistance_2:
  "calculateRouteDistance geo [a, b] = calculateDistance geo (location a) (location b)"
  by (simp add: calculateRouteDistance_def)

lemma calculateRouteDistance_4:
  "calculateRouteDistance geo [a, b, c, d] =
     calculateDistance geo (location a) (location b)
     + calculateDistance geo (location b) (location c)
     + calculateDistance geo (location c) (location d)"
  by (simp add: calculateRouteDistance_def upt_small)

lemma example_route_distance: "calculateRouteDistance example_geo example_stops = 2"
  by (simp add: calculateRouteDistance_2 example_stops_def calculateDistance_def example_geo_def)

lemma example_candidate_distances:
  "candidate_distance example_geo example_stops (0, 0) (1, 1) 0 0 = 6"
  "candidate_distance example_geo example_stops (0, 0) (1, 1) 0 (Suc 0) = 2"
  "candidate_distance example_geo example_stops (0, 0) (1, 1) 0 2 = 2"
  "candidate_distance example_geo example_stops (0, 0) (1, 1) (Suc 0) (Suc 0) = 2"
  "candidate_distance example_geo example_stops (0, 0) (1, 1) (Suc 0) 2 = 2"
  "candidate_distance example_geo example_stops (0, 0) (1, 1) 2 2 = 6"
  by (simp_all add: candidate_distance_def candidate_def insertion_def example_stops_def
        new_stop_def calculateRouteDistance_4 calculateDistance_def example_geo_def)

text \<open>In the scenario the search must settle on pickup position 0 and dropoff position 1.\<close>

lemma example_search_positions:
  assumes pd: "p \<le> d" "d \<le> length example_stops"
    and least: "\<forall>p' d'. p' \<le> d' \<and> d' \<le> length example_stops \<longrightarrow>
                 candidate_distance example_geo example_stops (0, 0) (1, 1) p d
                   \<le> candidate_distance example_geo example_stops (0, 0) (1, 1) p' d'"
    and first: "\<forall>p' d'. p' \<le> d' \<and> d' \<le> length example_stops \<and> lex_before (p', d') (p, d) \<longrightarrow>
                 candidate_distance example_geo example_stops (0, 0) (1, 1) p d
                   < candidate_distance example_geo example_stops (0, 0) (1, 1) p' d'"
  shows "p = 0 \<and> d = 1"
proof -
  have len: "length example_stops = 2" by (simp add: example_stops_def)
  from pd len have "d = 0 \<or> d = 1 \<or> d = 2" by arith
  with pd have cases: "(p, d) = (0, 0) \<or> (p, d) = (0, 1) \<or> (p, d) = (0, 2)
      \<or> (p, d) = (1, 1) \<or> (p, d) = (1, 2) \<or> (p, d) = (2, 2)" by auto
  from least [rule_format, of 0 1] len
  have le: "candidate_distance example_geo example_stops (0, 0) (1, 1) p d \<le> 2"
    by (simp add: example_candidate_distances)
  have nlt: "\<not> lex_before (0, 1) (p, d)"
  proof
    assume "lex_before (0, 1) (p, d)"
    with first [rule_format, of 0 1] len
    have "candidate_distance example_geo example_stops (0, 0) (1, 1) p d < 2"
      by (simp add: example_candidate_distances)
    with cases show False by (auto simp: example_candidate_distances)
  qed
  from cases le nlt show ?thesis
    by (auto simp: example_candidate_distances lex_before_def)
qed

lemma example_detour:
  "\<exists>r. bestRoute (calculateDetour example_geo example_stops (0, 0) (1, 1)) = Some r
       \<and> map unsequenced r = map unsequenced (candidate example_stops (0, 0) (1, 1) 0 1)"
  "detourPercentage (calculateDetour example_geo example_stops (0, 0) (1, 1)) = Num 0"
  "newDistance (calculateDetour example_geo example_stops (0, 0) (1, 1)) = 2"
proof -
  have a: "example_stops \<noteq> [] \<and> 0 < calculateRouteDistance example_geo example_stops"
    by (simp add: example_route_distance) (simp add: example_stops_def)
  from calculateDetour_search [OF a, of "(0, 0)" "(1, 1)"] obtain p d r where
    pd: "p \<le> d" "d \<le> length example_stops"
    and r: "bestRoute (calculateDetour example_geo example_stops (0, 0) (1, 1)) = Some r"
    and shape: "map unsequenced r = map unsequenced (candidate example_stops (0, 0) (1, 1) p d)"
    and nd: "newDistance (calculateDetour example_geo example_stops (0, 0) (1, 1))
               = calculateRouteDistance example_geo r"
    and cd: "calculateRouteDistance example_geo r
               = candidate_distance example_geo example_stops (0, 0) (1, 1) p d"
    and dp: "detourPercentage (calculateDetour example_geo example_stops (0, 0) (1, 1)) =
              Num ((calculateRouteDistance example_geo r - calculateRouteDistance example_geo example_stops)
                    / calculateRouteDistance example_geo example_stops)"
    and least: "\<forall>p' d'. p' \<le> d' \<and> d' \<le> length example_stops \<longrightarrow>
                 candidate_distance example_geo example_stops (0, 0) (1, 1) p d
                   \<le> candidate_distance example_geo example_stops (0, 0) (1, 1) p' d'"
    and first: "\<forall>p' d'. p' \<le> d' \<and> d' \<le> length example_stops \<and> lex_before (p', d') (p, d) \<longrightarrow>
                 candidate_distance example_geo example_stops (0, 0) (1, 1) p d
                   < candidate_distance example_geo example_stops (0, 0) (1, 1) p' d'"
    by blast
  from example_search_positions [OF pd least first] have p: "p = 0" and d: "d = 1" by simp_all
  show "\<exists>r. bestRoute (calculateDetour example_geo example_stops (0, 0) (1, 1)) = Some r
       \<and> map unsequenced r = map unsequenced (candidate example_stops (0, 0) (1, 1) 0 1)"
    using r shape p d by simp
  show "detourPercentage (calculateDetour example_geo example_stops (0, 0) (1, 1)) = Num 0"
    using dp cd p d by (simp add: example_candidate_distances example_route_distance)
  show "newDistance (calculateDetour example_geo example_stops (0, 0) (1, 1)) = 2"
    using nd cd p d by (simp add: example_candidate_distances)
qed

lemma createNewPool_example:
  "createNewPool example_env empty_world first_request = (Inr first_pool, example_world)"
  by (simp add: createNewPool_def example_env_def empty_world_def first_request_def
        first_pool_def example_world_def save_def Let_def findByIdAndUpdate_def
        calculateDistance_def example_geo_def estimateDuration_def calculateBasePrice_def
        default_config_def example_stops_def)

lemma findNearbyPools_example:
  "pools w = [7 \<mapsto> first_pool] \<Longrightarrow>
   findNearbyPools example_env w (0, 0) 1 1 = [(7, first_pool)]"
  by (simp add: findNearbyPools_def example_env_def List.map_filter_simps first_pool_def
        example_stops_def isWithinRadius_def calculateDistance_def example_geo_def
        default_config_def)

lemma findBestMatch_example:
  "findBestMatch example_env second_request [(7, first_pool)] =
     Some \<lparr> pm_id = 7,
            calculatedDetour = calculateDetour example_geo example_stops (0, 0) (1, 1) \<rparr>"
  by (simp add: findBestMatch_def example_env_def second_request_def first_pool_def Let_def
        js_gt_def example_detour)

lemma addToExistingPool_succeeds:
  assumes "pools w (pm_id pd) = Some pool"
    and "canAccommodate pool (rq_passengers rq) (rq_luggage rq)"
    and "bestRoute (calculatedDetour pd) = Some r"
    and "\<forall>q. env_accepts e q"
  shows "\<exists>pr d w'. addToExistingPool e w pd rq = (Success pr d, w')"
  using assms by (simp add: addToExistingPool_def save_def Let_def)

lemma processRideRequest_example:
  "\<exists>r w'. processRideRequest example_env example_world second_request = (Inr r, w')
          \<and> poolId r = 7 \<and> \<not> isNewPool r"
proof -
  let ?pd = "\<lparr> pm_id = 7,
            calculatedDetour = calculateDetour example_geo example_stops (0, 0) (1, 1) \<rparr>"
  let ?w1 = "example_world\<lparr>setCalls := Suc 0, locks := [7 \<mapsto> ''u'']\<rparr>"
  have "findNearbyPools example_env example_world (0, 0) 1 1 = [(7, first_pool)]"
    by (rule findNearbyPools_example) (simp add: example_world_def)
  then have nearby: "findNearbyPools example_env example_world (rq_pickupLocation second_request)
      (rq_passengers second_request) (rq_luggage second_request) = [(7, first_pool)]"
    by (simp add: second_request_def)
  have lock: "acquireLock example_env example_world 7 = (Inr ''u'', ?w1)"
    by (simp add: acquireLock_def example_world_def example_env_def Let_def)
  obtain best where best: "bestRoute (calculatedDetour ?pd) = Some best"
    using example_detour(1) by auto
  have stored: "pools ?w1 (pm_id ?pd) = Some first_pool" by (simp add: example_world_def)
  have room: "canAccommodate first_pool (rq_passengers second_request) (rq_luggage second_request)"
    by (simp add: canAccommodate_def first_pool_def second_request_def)
  have acc: "\<forall>q. env_accepts example_env q" by (simp add: example_env_def)
  have "\<exists>pr d w'. addToExistingPool example_env ?w1 ?pd second_request = (Success pr d, w')"
    by (rule addToExistingPool_succeeds [OF stored room best acc])
  then obtain pr d w2 where
    add: "addToExistingPool example_env ?w1 ?pd second_request = (Success pr d, w2)" by blast
  show ?thesis
    by (simp add: processRideRequest_def Let_def nearby findBestMatch_example lock add)
qed

lemma cancelRide_example:
  "\<exists>pool' w'. cancelRide example_env example_world 1 7 = (Inr pool', w')"
proof -
  have "pools example_world 7 = Some first_pool" by (simp add: example_world_def)
  moreover have "passengers first_pool = [hd (passengers first_pool)]"
    and "userId (hd (passengers first_pool)) = 1"
    by (simp_all add: first_pool_def)
  moreover have "locks example_world 7 = None" by (simp add: example_world_def)
  moreover have "\<forall>q. env_accepts example_env q" by (simp add: example_env_def)
  ultimately show ?thesis by (rule cancelRide_sole_succeeds)
qed

section \<open>The claims about the detour search\<close>



text \<open>
  C10: for a non-empty route of total distance \<open>0\<close> the division by the original
  distance gives \<open>Infinity\<close> or \<open>NaN\<close> for every candidate, none of which is less than
  the initial \<open>Infinity\<close>; \<open>calculateDetour\<close> returns no route, distance \<open>0\<close> and the
  detour \<open>Infinity\<close>.
\<close>

theorem C10_zero_length_route:
  assumes "stops_in \<noteq> []" and "calculateRouteDistance geo stops_in = 0"
  shows "calculateDetour geo stops_in P D =
           \<lparr> detourPercentage = PInf, bestRoute = None, newDistance = 0 \<rparr>"
  using assms
    fold_detour_step_zero [of "\<lparr> originals = stops_in, minDetour = PInf, bestRouteRef = None,
                   bestDistance = 0 \<rparr>" geo P D "positions (length stops_in)"]
  by (simp add: calculateDetour_nonempty Let_def)

theorem C10_zero_length_route_witness:
  "calculateRouteDistance example_geo
      [new_stop Pickup (0, 0) 0, new_stop Dropoff (0, 0) 1] = 0
   \<and> calculateDetour example_geo
        [new_stop Pickup (0, 0) 0, new_stop Dropoff (0, 0) 1] (0, 0) (1, 1) =
       \<lparr> detourPercentage = PInf, bestRoute = None, newDistance = 0 \<rparr>"
proof -
  have z: "calculateRouteDistance example_geo
      [new_stop Pickup (0, 0) 0, new_stop Dropoff (0, 0) 1] = 0"
    by (simp add: calculateRouteDistance_2 new_stop_def calculateDistance_def example_geo_def)
  from C10_zero_length_route [OF _ z, of "(0, 0)" "(1, 1)"] z show ?thesis by simp
qed

section \<open>Instances of the claims about the pool operations\<close>

theorem C7_cancel_sole_passenger_witness:
  "\<exists>pool' w'. cancelRide example_env example_world 1 7 = (Inr pool', w')
     \<and> status pool' = ''cancelled'' \<and> seats (currentOccupancy pool') = 0
     \<and> luggage (currentOccupancy pool') = 0 \<and> passengers pool' = []
     \<and> pools w' 7 = Some pool'"
proof -
  from cancelRide_example obtain pool' w' where
    run: "cancelRide example_env example_world 1 7 = (Inr pool', w')" by blast
  have stored: "pools example_world 7 = Some first_pool" by (simp add: example_world_def)
  from C7_cancel_sole_passenger [OF stored _ _ _ _ run] run show ?thesis
    by (simp add: first_pool_def)
qed

theorem C9_cancel_leaves_requests_witness:
  "\<exists>pool' w'. cancelRide example_env example_world 1 7 = (Inr pool', w')
     \<and> requests w' = requests example_world
     \<and> locks w' = locks example_world
     \<and> map_option rq_status (requests w' 11) = Some ''matched''"
proof -
  from cancelRide_example obtain pool' w' where
    run: "cancelRide example_env example_world 1 7 = (Inr pool', w')" by blast
  from C9_cancel_leaves_requests [OF run] run show ?thesis
    by (simp add: example_world_def)
qed

text \<open>
  C8 as stated fails: with the lock of pool 7 held by another holder, \<open>cancelRide\<close> of
  its passenger ends with the error after one single \<open>SET\<close> command, and the passenger
  is still in the pool.
\<close>

theorem C8_lock_failure_counterexample:
  "fst (cancelRide example_env locked_world 1 7) = Inl (Error ''Failed to acquire lock'')
   \<and> setCalls locked_world = 0
   \<and> setCalls (snd (cancelRide example_env locked_world 1 7)) = 1
   \<and> pools (snd (cancelRide example_env locked_world 1 7)) 7 = Some first_pool
   \<and> passengers first_pool \<noteq> []"
  by (simp add: cancelRide_def acquireLock_def locked_world_def example_world_def Let_def
        first_pool_def)

theorem C8_lock_failure_not_retried_witness:
  "locks locked_world 7 = Some ''held''
   \<and> acquireLock example_env locked_world 7
       = (Inl (Error ''Failed to acquire lock''), locked_world\<lparr>setCalls := 1\<rparr>)
   \<and> cancelRide example_env locked_world 1 7
       = (Inl (Error ''Failed to acquire lock''), locked_world\<lparr>setCalls := 1\<rparr>)
   \<and> processRideRequest example_env locked_world second_request
       = (Inl (Error ''Failed to acquire lock''), locked_world\<lparr>setCalls := 1\<rparr>)"
proof -
  have held: "locks locked_world 7 = Some ''held''" by (simp add: locked_world_def)
  have "findNearbyPools example_env locked_world (0, 0) 1 1 = [(7, first_pool)]"
    by (rule findNearbyPools_example) (simp add: locked_world_def example_world_def)
  then have best: "findBestMatch example_env second_request
       (findNearbyPools example_env locked_world (rq_pickupLocation second_request)
          (rq_passengers second_request) (rq_luggage second_request))
     = Some \<lparr> pm_id = 7,
              calculatedDetour = calculateDetour example_geo example_stops (0, 0) (1, 1) \<rparr>"
    using findBestMatch_example by (simp add: second_request_def)
  have zero: "setCalls locked_world = 0" by (simp add: locked_world_def example_world_def)
  from C8_lock_failure_not_retried [OF held, of example_env 1 second_request
      "calculateDetour example_geo example_stops (0, 0) (1, 1)"] best held zero
  show ?thesis by simp
qed

text \<open>
  C2 as stated fails for \<open>createNewPool\<close>, which checks nothing: started with
  \<open>MAX_POOL_SIZE=1\<close>, a request for two passengers gets a pool with two occupied seats
  and a capacity of one.
\<close>

theorem C2_capacity_counterexample:
  "MAX_POOL_SIZE (env_cfg cramped_env) = 1 \<and> rq_passengers first_request = 2
   \<and> fst (createNewPool cramped_env empty_world first_request) = Inr cramped_pool
   \<and> seats (currentOccupancy cramped_pool) = 2 \<and> capacity (vehicle cramped_pool) = 1
   \<and> \<not> within_capacity cramped_pool"
  by (simp add: createNewPool_def cramped_env_def example_env_def empty_world_def
        first_request_def cramped_pool_def first_pool_def save_def Let_def
        findByIdAndUpdate_def calculateDistance_def example_geo_def estimateDuration_def
        calculateBasePrice_def default_config_def example_stops_def within_capacity_def)

theorem C2_capacity_invariant_witness:
  "(\<exists>pr d w'. addToExistingPool example_env example_world
        \<lparr> pm_id = 7, calculatedDetour = calculateDetour example_geo example_stops (0, 0) (1, 1) \<rparr>
        second_request = (Success pr d, w')
      \<and> (\<exists>pool'. pools w' 7 = Some pool' \<and> within_capacity pool'))
   \<and> createNewPool example_env empty_world first_request = (Inr first_pool, example_world)
   \<and> pools example_world 7 = Some first_pool \<and> within_capacity first_pool
   \<and> (\<exists>r w'. processRideRequest example_env example_world second_request = (Inr r, w')
         \<and> (\<exists>pool'. pools w' (poolId r) = Some pool' \<and> within_capacity pool'))
   \<and> (\<exists>left w'. cancelRide example_env example_world 1 7 = (Inr left, w')
         \<and> pools w' 7 = Some left \<and> within_capacity left)"
proof -
  let ?pd = "\<lparr> pm_id = 7,
            calculatedDetour = calculateDetour example_geo example_stops (0, 0) (1, 1) \<rparr>"
  have stored: "pools example_world 7 = Some first_pool" by (simp add: example_world_def)
  have fits: "rq_passengers first_request \<le> of_int (MAX_POOL_SIZE (env_cfg example_env))
        \<and> rq_luggage first_request \<le> of_int (MAX_LUGGAGE_PER_CAB (env_cfg example_env))"
    "rq_passengers second_request \<le> of_int (MAX_POOL_SIZE (env_cfg example_env))
        \<and> rq_luggage second_request \<le> of_int (MAX_LUGGAGE_PER_CAB (env_cfg example_env))"
    by (simp_all add: first_request_def second_request_def example_env_def default_config_def)
  have inv: "within_capacity first_pool"
    and nonneg: "\<forall>p\<in>set (passengers first_pool). 0 \<le> passengerCount p \<and> 0 \<le> luggageCount p"
    by (simp_all add: within_capacity_def first_pool_def)
  obtain best where best: "bestRoute (calculatedDetour ?pd) = Some best"
    using example_detour(1) by auto
  have room: "canAccommodate first_pool (rq_passengers second_request) (rq_luggage second_request)"
    by (simp add: canAccommodate_def first_pool_def second_request_def)
  have acc: "\<forall>q. env_accepts example_env q" by (simp add: example_env_def)
  from addToExistingPool_succeeds [OF _ room best acc, of example_world] stored
  obtain pr d w1 where
    add: "addToExistingPool example_env example_world ?pd second_request = (Success pr d, w1)"
    by auto
  from processRideRequest_example obtain r w2 where
    join: "processRideRequest example_env example_world second_request = (Inr r, w2)" by blast
  from cancelRide_example obtain left w3 where
    cancel: "cancelRide example_env example_world 1 7 = (Inr left, w3)" by blast
  from C2_capacity_invariant [where e = example_env and w = example_world and pd = ?pd
      and rq = second_request and pr = pr and d = d and w' = w1] add
  have a: "\<exists>pool'. pools w1 7 = Some pool' \<and> within_capacity pool'" by simp
  from C2_capacity_invariant [where e = example_env and w = empty_world
      and rq = first_request and w' = example_world and created = first_pool]
    createNewPool_example fits(1)
  have b: "within_capacity first_pool" by (simp add: example_env_def)
  from C2_capacity_invariant [where e = example_env and w = example_world
      and rq = second_request and w' = w2 and r = r] join fits(2)
  have c: "\<exists>pool'. pools w2 (poolId r) = Some pool' \<and> within_capacity pool'" by simp
  from C2_capacity_invariant [where e = example_env and w = example_world and w' = w3
      and uid = 1 and pid = 7 and left = left and pool = first_pool]
    cancel stored inv nonneg
  have d: "pools w3 7 = Some left \<and> within_capacity left" by simp
  show ?thesis using a b c d add join cancel createNewPool_example stored by auto
qed

end
